theory Spec2Isabelle
  imports Complex_Main
begin

section \<open>Errors, arrays and the numpy functions the notebook calls\<close>

text \<open>
  The notebook \<^verbatim>\<open>solutions_colab/Radon.ipynb\<close> computes with numpy arrays of floats.
  Floats are modelled by exact reals, a one-dimensional array by the list of its entries,
  a two-dimensional array by the list of its rows, and an exception by a value of
  \<open>error\<close>: a computation that can raise returns \<open>error + 'a\<close>, with \<open>Inl\<close> for the
  exception. Python integers are \<open>int\<close>; Python's \<^verbatim>\<open>//\<close> rounds towards minus infinity, as
  \<open>div\<close> on \<open>int\<close> does.
\<close>

datatype error = ValueError | IndexError

type_synonym vec = "real list"

text \<open>\<^verbatim>\<open>np.dot\<close> of two one-dimensional arrays.\<close>

definition dot :: "vec \<Rightarrow> vec \<Rightarrow> real" where
  "dot u v = sum_list (map2 (*) u v)"

text \<open>\<^verbatim>\<open>np.arange(n)\<close>: the integers \<open>0, ..., n - 1\<close>, none when \<open>n \<le> 0\<close>.\<close>

definition arange :: "int \<Rightarrow> int list" where
  "arange n = [0..n - 1]"

text \<open>\<^verbatim>\<open>np.meshgrid(x, y, indexing='ij')\<close>: \<open>X[i][j] = x[i]\<close> and \<open>Y[i][j] = y[j]\<close>.\<close>

definition meshgrid_ij :: "'a list \<Rightarrow> 'a list \<Rightarrow> 'a list list \<times> 'a list list" where
  "meshgrid_ij x y = (map (\<lambda>a. map (\<lambda>b. a) y) x, map (\<lambda>a. y) x)"

text \<open>\<^verbatim>\<open>A.ravel()\<close> of a two-dimensional array: its rows one after the other.\<close>

definition ravel :: "'a list list \<Rightarrow> 'a list" where
  "ravel A = concat A"

definition deg2rad :: "real \<Rightarrow> real" where
  "deg2rad d = d * pi / 180"

text \<open>
  \<^verbatim>\<open>A @ B\<close> for two-dimensional arrays: entry \<open>(i, j)\<close> is the product of row \<open>i\<close> of
  \<open>A\<close> with column \<open>j\<close> of \<open>B\<close>.
\<close>

definition matmul :: "real list list \<Rightarrow> real list list \<Rightarrow> real list list" where
  "matmul A B =
     map (\<lambda>row. map (\<lambda>j. sum_list (map2 (*) row (map (\<lambda>r. r ! j) B)))
                     [0..<(case B of [] \<Rightarrow> 0 | b # _ \<Rightarrow> length b)]) A"

text \<open>
  \<^verbatim>\<open>x.reshape(m, n)\<close> of a one-dimensional array, row-major: \<open>m\<close> rows of \<open>n\<close> entries.
  numpy raises \<^verbatim>\<open>ValueError\<close> when the sizes do not match (a dimension \<open>-1\<close>, which numpy
  would infer, is not modelled: it is refused like every negative dimension).
\<close>

definition reshape2 :: "nat \<Rightarrow> nat \<Rightarrow> vec \<Rightarrow> vec list" where
  "reshape2 m n x = map (\<lambda>i. take n (drop (i * n) x)) [0..<m]"

definition np_reshape2 :: "int \<Rightarrow> int \<Rightarrow> vec \<Rightarrow> error + vec list" where
  "np_reshape2 m n x =
     (if m < 0 \<or> n < 0 \<or> int (length x) \<noteq> m * n then Inl ValueError
      else Inr (reshape2 (nat m) (nat n) x))"

text \<open>
  The slice \<^verbatim>\<open>xs[lo:hi]\<close>: a negative bound counts from the end, and both bounds are
  clipped to the list.
\<close>

definition py_slice :: "int \<Rightarrow> int \<Rightarrow> 'a list \<Rightarrow> 'a list" where
  "py_slice lo hi xs =
     (let n = int (length xs);
          s = (if lo < 0 then max (lo + n) 0 else min lo n);
          e = (if hi < 0 then max (hi + n) 0 else min hi n)
      in take (nat (e - s)) (drop (nat s) xs))"

text \<open>\<^verbatim>\<open>A[lo:hi, lo:hi]\<close> for a two-dimensional array.\<close>

definition slice2 :: "int \<Rightarrow> int \<Rightarrow> 'a list list \<Rightarrow> 'a list list" where
  "slice2 lo hi A = map (py_slice lo hi) (py_slice lo hi A)"

text \<open>
  \<^verbatim>\<open>A - B\<close> for two-dimensional arrays of one shape; arrays of different shapes raise
  \<^verbatim>\<open>ValueError\<close> (broadcasting an axis of size one is not modelled).
\<close>

definition arr_sub :: "vec list \<Rightarrow> vec list \<Rightarrow> error + vec list" where
  "arr_sub A B =
     (if map length A \<noteq> map length B then Inl ValueError
      else Inr (map2 (map2 (-)) A B))"

text \<open>
  \<^verbatim>\<open>np.linalg.norm(A)\<close> with no other argument: the array is flattened and the square
  root of its product with itself is returned (the Frobenius norm).
\<close>

definition linalg_norm :: "vec list \<Rightarrow> real" where
  "linalg_norm A = sqrt (dot (ravel A) (ravel A))"

text \<open>
  Where a notebook variable holds arrays of different ranks in turn, an array is a record
  of its shape and its entries in row-major order; \<^verbatim>\<open>reshape\<close> raises \<^verbatim>\<open>ValueError\<close>
  when the new shape has another size.
\<close>

record ndarray =
  arr_shape :: "nat list"
  arr_data :: vec

definition vector :: "vec \<Rightarrow> ndarray" where
  "vector x = \<lparr> arr_shape = [length x], arr_data = x \<rparr>"

definition arr_ravel :: "ndarray \<Rightarrow> ndarray" where
  "arr_ravel a = vector (arr_data a)"

definition arr_reshape :: "ndarray \<Rightarrow> nat list \<Rightarrow> error + ndarray" where
  "arr_reshape a s =
     (if prod_list s \<noteq> length (arr_data a) then Inl ValueError
      else Inr \<lparr> arr_shape = s, arr_data = arr_data a \<rparr>)"

definition arr_size :: "ndarray \<Rightarrow> nat" where
  "arr_size a = length (arr_data a)"

section \<open>The linear operators of the external library\<close>

text \<open>
  Modelled from the spec: the operators \<^verbatim>\<open>pylops.Sum\<close>,
  \<^verbatim>\<open>pylops.signalprocessing.Bilinear\<close>, \<^verbatim>\<open>pylops.VStack\<close>, the operator product
  \<^verbatim>\<open>*\<close> and the methods \<^verbatim>\<open>matvec\<close> / \<^verbatim>\<open>rmatvec\<close> belong to the external
  library, whose code is not among the repository's sources. The spec names them
  (bilinear interpolation operator, summation operator, stacking of operators) and
  the notebook only calls them; the definitions of this section follow the behaviour
  the library documents for them.

  An operator is an object with a \<open>shape\<close> (rows, columns) and the two private methods
  \<^verbatim>\<open>_matvec\<close> and \<^verbatim>\<open>_rmatvec\<close>.
\<close>

record linop =
  shape :: "int \<times> int"
  op_matvec :: "vec \<Rightarrow> error + vec"
  op_rmatvec :: "vec \<Rightarrow> error + vec"

text \<open>
  Modelled from the spec: the public \<^verbatim>\<open>matvec\<close> (what \<^verbatim>\<open>A * x\<close> calls for a vector
  \<open>x\<close>) refuses an input whose length is not the number of columns
  (\<^verbatim>\<open>ValueError: dimension mismatch\<close>) and reshapes the output to the number of rows,
  which fails when the sizes differ; \<^verbatim>\<open>rmatvec\<close> (what \<^verbatim>\<open>A.H * y\<close> calls) is the same
  with rows and columns exchanged.
\<close>

definition matvec :: "linop \<Rightarrow> vec \<Rightarrow> error + vec" where
  "matvec A x =
     (if int (length x) \<noteq> snd (shape A) then Inl ValueError
      else case op_matvec A x of
             Inl e \<Rightarrow> Inl e
           | Inr y \<Rightarrow> if int (length y) \<noteq> fst (shape A) then Inl ValueError else Inr y)"

definition rmatvec :: "linop \<Rightarrow> vec \<Rightarrow> error + vec" where
  "rmatvec A y =
     (if int (length y) \<noteq> fst (shape A) then Inl ValueError
      else case op_rmatvec A y of
             Inl e \<Rightarrow> Inl e
           | Inr x \<Rightarrow> if int (length x) \<noteq> snd (shape A) then Inl ValueError else Inr x)"

subsection \<open>Sum along the first axis\<close>

definition sum_axis0 :: "nat \<Rightarrow> vec list \<Rightarrow> vec" where
  "sum_axis0 n rows = foldr (map2 (+)) rows (replicate n 0)"

definition tile_axis0 :: "nat \<Rightarrow> vec \<Rightarrow> vec" where
  "tile_axis0 m y = concat (replicate m y)"

text \<open>
  Modelled from the spec: \<^verbatim>\<open>pylops.Sum(dims=(m, n), dir=0)\<close>, the only direction the
  notebook uses. Forward: the input, read as an \<open>m \<times> n\<close> array in row-major order, is
  summed over its first axis (\<open>n\<close> values). Adjoint: the \<open>n\<close> values are spread (tiled)
  over the \<open>m\<close> rows. The shape is \<open>(n, m * n)\<close>. A negative dimension makes the reshape
  fail.
\<close>

definition Sum_op :: "int \<times> int \<Rightarrow> linop" where
  "Sum_op dims = (case dims of (m, n) \<Rightarrow>
     \<lparr> shape = (n, m * n),
       op_matvec = (\<lambda>x. if m < 0 \<or> n < 0 then Inl ValueError
                         else Inr (sum_axis0 (nat n) (reshape2 (nat m) (nat n) x))),
       op_rmatvec = (\<lambda>y. if m < 0 \<or> n < 0 then Inl ValueError
                          else Inr (tile_axis0 (nat m) y)) \<rparr>)"

subsection \<open>Bilinear interpolation\<close>

text \<open>
  Modelled from the spec: numpy's integer indexing on an axis of size \<open>n\<close>. An index in
  \<open>[0, n)\<close> is itself, an index in \<open>[-n, 0)\<close> counts from the end, any other index raises
  \<^verbatim>\<open>IndexError\<close>.
\<close>

definition axis_index :: "int \<Rightarrow> int \<Rightarrow> error + nat" where
  "axis_index n i =
     (if 0 \<le> i \<and> i < n then Inr (nat i)
      else if - n \<le> i \<and> i < 0 then Inr (nat (i + n))
      else Inl IndexError)"

text \<open>
  Modelled from the spec: the four samples bilinear interpolation reads for the point
  \<open>(px, py)\<close> of an \<open>nx \<times> ny\<close> array, with their weights: top \<open>t = floor px\<close>, bottom
  \<open>t + 1\<close>, left \<open>l = floor py\<close>, right \<open>l + 1\<close>, and the weights from the fractional
  parts. Each sample is given by its position in the flattened (row-major) array.
\<close>

definition bilinear_taps :: "int \<times> int \<Rightarrow> real \<times> real \<Rightarrow> error + (nat \<times> real) list" where
  "bilinear_taps dims p = (case dims of (nx, ny) \<Rightarrow> (case p of (px, py) \<Rightarrow>
     (let t = \<lfloor>px\<rfloor>; b = t + 1; wtb = px - of_int t;
          l = \<lfloor>py\<rfloor>; r = l + 1; wlr = py - of_int l
      in (case axis_index nx t of Inl e \<Rightarrow> Inl e | Inr it \<Rightarrow>
         (case axis_index nx b of Inl e \<Rightarrow> Inl e | Inr ib \<Rightarrow>
         (case axis_index ny l of Inl e \<Rightarrow> Inl e | Inr il \<Rightarrow>
         (case axis_index ny r of Inl e \<Rightarrow> Inl e | Inr ir \<Rightarrow>
           Inr [(it * nat ny + il, (1 - wtb) * (1 - wlr)),
                (it * nat ny + ir, (1 - wtb) * wlr),
                (ib * nat ny + il, wtb * (1 - wlr)),
                (ib * nat ny + ir, wtb * wlr)])))))))"

text \<open>The first error of a list of results, or all the values.\<close>

fun collect :: "(error + 'a) list \<Rightarrow> error + 'a list" where
  "collect [] = Inr []"
| "collect (r # rs) =
     (case r of Inl e \<Rightarrow> Inl e
      | Inr v \<Rightarrow> (case collect rs of Inl e \<Rightarrow> Inl e | Inr vs \<Rightarrow> Inr (v # vs)))"

text \<open>
  The weighted sum of the samples of \<open>x\<close> (forward), and the weighted addition of a value
  \<open>v\<close> to the samples of \<open>z\<close> (adjoint; \<open>scatter\<close> does it for every point in turn). The
  positions come from \<open>bilinear_taps\<close> and are below \<open>nx * ny\<close>, the length that
  \<open>matvec\<close> has checked, so no read or write is out of range.
\<close>

definition gather :: "vec \<Rightarrow> (nat \<times> real) list \<Rightarrow> real" where
  "gather x taps = sum_list (map (\<lambda>(i, w). x ! i * w) taps)"

fun add_at :: "vec \<Rightarrow> (nat \<times> real) list \<Rightarrow> real \<Rightarrow> vec" where
  "add_at z [] v = z"
| "add_at z ((i, w) # taps) v = add_at (z[i := z ! i + v * w]) taps v"

fun scatter :: "vec \<Rightarrow> ((nat \<times> real) list \<times> real) list \<Rightarrow> vec" where
  "scatter z [] = z"
| "scatter z ((taps, v) # rest) = scatter (add_at z taps v) rest"

text \<open>The coordinate pairs of a \<open>2 \<times> P\<close> array, column by column.\<close>

definition points :: "real list list \<Rightarrow> (real \<times> real) list" where
  "points iava = zip (iava ! 0) (iava ! 1)"

text \<open>
  Modelled from the spec: \<^verbatim>\<open>pylops.signalprocessing.Bilinear(iava, dims=(nx, ny))\<close>,
  where \<open>iava\<close> is a \<open>2 \<times> P\<close> array of fractional coordinates. The constructor raises
  \<^verbatim>\<open>ValueError\<close> when a coordinate pair is repeated. Forward: each of the \<open>P\<close> outputs is
  the weighted sum of the four samples around its point. Adjoint: each input value is
  added, with the same weights, to those four samples of a zero array. The shape is
  \<open>(P, nx * ny)\<close>. The coordinates are not checked when the operator is built: a sample
  outside the array raises \<^verbatim>\<open>IndexError\<close> when the operator is applied.
\<close>

definition Bilinear :: "real list list \<Rightarrow> int \<times> int \<Rightarrow> error + linop" where
  "Bilinear iava dims = (case dims of (nx, ny) \<Rightarrow>
     (if \<not> distinct (points iava) then Inl ValueError
      else Inr
        \<lparr> shape = (int (length (iava ! 1)), nx * ny),
          op_matvec = (\<lambda>x.
            if nx < 0 \<or> ny < 0 then Inl ValueError
            else (case collect (map (bilinear_taps (nx, ny)) (points iava)) of
                   Inl e \<Rightarrow> Inl e
                 | Inr taps \<Rightarrow> Inr (map (gather x) taps))),
          op_rmatvec = (\<lambda>y.
            if nx < 0 \<or> ny < 0 then Inl ValueError
            else (case collect (map (bilinear_taps (nx, ny)) (points iava)) of
                   Inl e \<Rightarrow> Inl e
                 | Inr taps \<Rightarrow>
                     Inr (scatter (replicate (nat (nx * ny)) 0) (zip taps y)))) \<rparr>))"

subsection \<open>Product and vertical stack\<close>

text \<open>
  Modelled from the spec: the product \<^verbatim>\<open>A * B\<close> of two operators. It raises
  \<^verbatim>\<open>ValueError\<close> when the columns of \<open>A\<close> are not the rows of \<open>B\<close>; forward it applies
  \<open>B\<close> then \<open>A\<close>, adjoint it applies the adjoint of \<open>A\<close> then the adjoint of \<open>B\<close>.
\<close>

definition mul_op :: "linop \<Rightarrow> linop \<Rightarrow> error + linop" where
  "mul_op A B =
     (if snd (shape A) \<noteq> fst (shape B) then Inl ValueError
      else Inr
        \<lparr> shape = (fst (shape A), snd (shape B)),
          op_matvec = (\<lambda>x. case matvec B x of Inl e \<Rightarrow> Inl e | Inr z \<Rightarrow> matvec A z),
          op_rmatvec = (\<lambda>y. case rmatvec A y of Inl e \<Rightarrow> Inl e | Inr z \<Rightarrow> rmatvec B z) \<rparr>)"

text \<open>
  The two loops of the stack: the forward outputs in a row, and the adjoint outputs of the
  blocks of \<open>y\<close> added to the accumulator.
\<close>

fun vstack_matvec :: "linop list \<Rightarrow> vec \<Rightarrow> error + vec" where
  "vstack_matvec [] x = Inr []"
| "vstack_matvec (A # As) x =
     (case matvec A x of Inl e \<Rightarrow> Inl e
      | Inr u \<Rightarrow> (case vstack_matvec As x of Inl e \<Rightarrow> Inl e | Inr us \<Rightarrow> Inr (u @ us)))"

fun vstack_rmatvec :: "vec \<Rightarrow> linop list \<Rightarrow> vec \<Rightarrow> error + vec" where
  "vstack_rmatvec acc [] y = Inr acc"
| "vstack_rmatvec acc (A # As) y =
     (case rmatvec A (take (nat (fst (shape A))) y) of Inl e \<Rightarrow> Inl e
      | Inr v \<Rightarrow> vstack_rmatvec (map2 (+) acc v) As (drop (nat (fst (shape A))) y))"

text \<open>
  Modelled from the spec: \<^verbatim>\<open>pylops.VStack(ops)\<close>. The constructor reads the number of
  columns of the first operator, which raises \<^verbatim>\<open>IndexError\<close> on an empty list, and
  raises \<^verbatim>\<open>ValueError\<close> when the operators differ in their columns. Forward: the outputs
  of the operators, one after the other. Adjoint: the input is cut into one block per
  operator, and the adjoint outputs are added up, starting from zeros.
\<close>

definition VStack :: "linop list \<Rightarrow> error + linop" where
  "VStack ops =
     (case ops of [] \<Rightarrow> Inl IndexError
      | A # _ \<Rightarrow>
          if \<exists>B \<in> set ops. snd (shape B) \<noteq> snd (shape A) then Inl ValueError
          else Inr
            \<lparr> shape = (sum_list (map (\<lambda>B. fst (shape B)) ops), snd (shape A)),
              op_matvec = vstack_matvec ops,
              op_rmatvec = vstack_rmatvec (replicate (nat (snd (shape A))) 0) ops \<rparr>)"

subsection \<open>Operators from functions, and the adjoint\<close>

text \<open>
  Modelled from the spec: \<^verbatim>\<open>pylops.FunctionOperator(f, fc, nr, nc)\<close> wraps a forward
  function \<open>f\<close> and an adjoint function \<open>fc\<close> into an operator of shape \<open>(nr, nc)\<close>. Each
  is called on the one-dimensional input, and its output is flattened.
\<close>

definition FunctionOperator ::
  "(ndarray \<Rightarrow> error + ndarray) \<Rightarrow> (ndarray \<Rightarrow> error + ndarray) \<Rightarrow> int \<Rightarrow> int \<Rightarrow> linop" where
  "FunctionOperator f fc nr nc =
     \<lparr> shape = (nr, nc),
       op_matvec = (\<lambda>x. case f (vector x) of Inl e \<Rightarrow> Inl e | Inr a \<Rightarrow> Inr (arr_data a)),
       op_rmatvec = (\<lambda>x. case fc (vector x) of Inl e \<Rightarrow> Inl e | Inr a \<Rightarrow> Inr (arr_data a)) \<rparr>"

text \<open>
  Modelled from the spec: \<^verbatim>\<open>A.H\<close>, the adjoint of an operator: the shape is transposed and
  the two methods change places.
\<close>

definition adjoint_op :: "linop \<Rightarrow> linop" where
  "adjoint_op A = \<lparr> shape = (snd (shape A), fst (shape A)),
                    op_matvec = op_rmatvec A, op_rmatvec = op_matvec A \<rparr>"

section \<open>The notebook's code\<close>

subsection \<open>RadonRotate\<close>

text \<open>
  The grid of \<^verbatim>\<open>RadonRotate\<close>: the lines of the notebook's function before the loop.
  \<^verbatim>\<open>
    nx, ny = dims
    x0, y0 = nx//2, ny//2
    x = np.arange(nx - inner) - x0 + inner//2
    y = np.arange(ny - inner) - y0 + inner//2
    X, Y = np.meshgrid(x, y, indexing='ij')
    X, Y = X.ravel(), Y.ravel()
    XY = np.vstack((X, Y))
  \<close>
  Python's \<^verbatim>\<open>//\<close> on integers rounds towards minus infinity, as \<open>div\<close> on \<open>int\<close> does.
\<close>

definition grid :: "int \<times> int \<Rightarrow> int \<Rightarrow> int list list" where
  "grid dims inner = (case dims of (nx, ny) \<Rightarrow>
     (let x0 = nx div 2; y0 = ny div 2;
          x = map (\<lambda>v. v - x0 + inner div 2) (arange (nx - inner));
          y = map (\<lambda>v. v - y0 + inner div 2) (arange (ny - inner));
          XYm = meshgrid_ij x y;
          X = ravel (fst XYm); Y = ravel (snd XYm)
      in [X, Y]))"

text \<open>
  The rotated coordinates of one angle (in radians): the first lines of the loop body.
  \<^verbatim>\<open>
    R = np.array([[np.cos(theta), -np.sin(theta)],
                  [np.sin(theta), np.cos(theta)]])
    XYrot = R @ XY
    XYrot[0] += x0
    XYrot[1] += y0
  \<close>
\<close>

definition rotate_grid :: "int \<times> int \<Rightarrow> int list list \<Rightarrow> real \<Rightarrow> real list list" where
  "rotate_grid dims XY theta = (case dims of (nx, ny) \<Rightarrow>
     (let x0 = nx div 2; y0 = ny div 2;
          R = [[cos theta, - sin theta], [sin theta, cos theta]];
          XYrot = matmul R (map (map real_of_int) XY);
          XYrot0 = XYrot[0 := map (\<lambda>v. v + real_of_int x0) (XYrot ! 0)];
          XYrot1 = XYrot0[1 := map (\<lambda>v. v + real_of_int y0) (XYrot0 ! 1)]
      in XYrot1))"

text \<open>
  The loop over the angles, with the list \<open>Rops\<close> it appends to.
  \<^verbatim>\<open>
    for theta in thetas:
        ...
        Rops.append(pylops.Sum(dims=(nx-inner, ny-inner), dir=0) *
                    pylops.signalprocessing.Bilinear(XYrot, dims=(nx, ny)))
  \<close>
\<close>

fun RadonRotate_loop ::
  "int \<times> int \<Rightarrow> int \<Rightarrow> int list list \<Rightarrow> linop list \<Rightarrow> real list \<Rightarrow> error + linop list" where
  "RadonRotate_loop dims inner XY Rops [] = Inr Rops"
| "RadonRotate_loop dims inner XY Rops (theta # thetas) =
     (case Bilinear (rotate_grid dims XY theta) dims of
        Inl e \<Rightarrow> Inl e
      | Inr B \<Rightarrow>
          (case mul_op (Sum_op (fst dims - inner, snd dims - inner)) B of
             Inl e \<Rightarrow> Inl e
           | Inr SB \<Rightarrow> RadonRotate_loop dims inner XY (Rops @ [SB]) thetas))"

text \<open>
  The whole function: the grid, the angles converted to radians, the loop, and
  \<^verbatim>\<open>Radop = pylops.VStack(Rops)\<close>.
\<close>

definition RadonRotate :: "int \<times> int \<Rightarrow> int \<Rightarrow> real list \<Rightarrow> error + linop" where
  "RadonRotate dims inner thetas =
     (case RadonRotate_loop dims inner (grid dims inner) [] (map deg2rad thetas) of
        Inl e \<Rightarrow> Inl e
      | Inr Rops \<Rightarrow> VStack Rops)"

subsection \<open>The projection angles\<close>

text \<open>
  \<^verbatim>\<open>np.arange(lo, hi, st)\<close> for integers and a positive step: \<open>lo, lo + st, ...\<close> below
  \<open>hi\<close>. The notebook's angles, in degrees:
  \<^verbatim>\<open>
    thetamin, thetamax, dtheta = 0, 180, 3
    thetas = np.arange(thetamin, thetamax, dtheta)
  \<close>
\<close>

definition arange_step :: "int \<Rightarrow> int \<Rightarrow> int \<Rightarrow> int list" where
  "arange_step lo hi st = map (\<lambda>i. lo + st * i) (arange (- ((lo - hi) div st)))"

definition notebook_thetas :: "real list" where
  "notebook_thetas = map real_of_int (arange_step 0 180 3)"

subsection \<open>The forward projection\<close>

text \<open>
  The notebook applies the operator to the flattened image and reshapes the result:
  \<^verbatim>\<open>
    Radop = RadonRotate((nx, ny), inner, thetas)
    projection1 = Radop * image.ravel()
    projection1 = projection1.reshape(len(thetas), ny-inner)
  \<close>
\<close>

definition projection1 :: "int \<times> int \<Rightarrow> int \<Rightarrow> real list \<Rightarrow> vec list \<Rightarrow> error + vec list" where
  "projection1 dims inner thetas img =
     (case RadonRotate dims inner thetas of
        Inl e \<Rightarrow> Inl e
      | Inr Radop \<Rightarrow>
          (case matvec Radop (ravel img) of
             Inl e \<Rightarrow> Inl e
           | Inr p \<Rightarrow> np_reshape2 (int (length thetas)) (snd dims - inner) p))"

subsection \<open>The error metric\<close>

text \<open>
  The three reconstructions are measured by three lines that differ in the reconstructed
  array only (\<open>pad\<close> is the notebook's global, set to 50):
  \<^verbatim>\<open>
    mse_fbp = np.linalg.norm(image_fbp[pad//2:-pad//2, pad//2:-pad//2]
                             - image[pad//2:-pad//2, pad//2:-pad//2])
    mse_l2 = np.linalg.norm(image_l2[pad//2:-pad//2, pad//2:-pad//2]
                            - image[pad//2:-pad//2, pad//2:-pad//2])
    mse_tv = np.linalg.norm(image_tv[pad//2:-pad//2, pad//2:-pad//2]
                            - image[pad//2:-pad//2, pad//2:-pad//2])
  \<close>
  In Python \<^verbatim>\<open>-pad//2\<close> is \<^verbatim>\<open>(-pad)//2\<close>.
\<close>

definition mse_fbp :: "int \<Rightarrow> vec list \<Rightarrow> vec list \<Rightarrow> error + real" where
  "mse_fbp pad image_fbp img =
     (case arr_sub (slice2 (pad div 2) ((- pad) div 2) image_fbp)
                   (slice2 (pad div 2) ((- pad) div 2) img) of
        Inl e \<Rightarrow> Inl e
      | Inr D \<Rightarrow> Inr (linalg_norm D))"

definition mse_l2 :: "int \<Rightarrow> vec list \<Rightarrow> vec list \<Rightarrow> error + real" where
  "mse_l2 pad image_l2 img =
     (case arr_sub (slice2 (pad div 2) ((- pad) div 2) image_l2)
                   (slice2 (pad div 2) ((- pad) div 2) img) of
        Inl e \<Rightarrow> Inl e
      | Inr D \<Rightarrow> Inr (linalg_norm D))"

definition mse_tv :: "int \<Rightarrow> vec list \<Rightarrow> vec list \<Rightarrow> error + real" where
  "mse_tv pad image_tv img =
     (case arr_sub (slice2 (pad div 2) ((- pad) div 2) image_tv)
                   (slice2 (pad div 2) ((- pad) div 2) img) of
        Inl e \<Rightarrow> Inl e
      | Inr D \<Rightarrow> Inr (linalg_norm D))"

subsection \<open>The wrapped radon / iradon pair\<close>

text \<open>
  The notebook's global variables that the demonstration of \<^verbatim>\<open>FunctionOperator\<close> reads
  and writes.
\<close>

record globals =
  g_image :: ndarray
  g_projection :: ndarray
  g_projection1 :: ndarray
  g_image_adj :: ndarray

text \<open>
  The two lambdas and the operator. The functions \<^verbatim>\<open>radon\<close> and \<^verbatim>\<open>iradon\<close> of
  scikit-image are parameters (with the keyword arguments the notebook fixes); the
  lambdas read the globals \<^verbatim>\<open>image\<close> and \<^verbatim>\<open>projection\<close> when they are called.
  \<^verbatim>\<open>
    mvec = lambda x: radon(x.reshape(image.shape), theta=thetas, ...)
    rmvec = lambda x: iradon(x.reshape(projection.shape), theta=thetas, ...)
    Fop = FunctionOperator(mvec, rmvec, projection.size, image.size)
  \<close>
\<close>

definition mvec :: "(ndarray \<Rightarrow> error + ndarray) \<Rightarrow> globals \<Rightarrow> ndarray \<Rightarrow> error + ndarray" where
  "mvec radon g x =
     (case arr_reshape x (arr_shape (g_image g)) of Inl e \<Rightarrow> Inl e | Inr a \<Rightarrow> radon a)"

definition rmvec :: "(ndarray \<Rightarrow> error + ndarray) \<Rightarrow> globals \<Rightarrow> ndarray \<Rightarrow> error + ndarray" where
  "rmvec iradon g x =
     (case arr_reshape x (arr_shape (g_projection g)) of Inl e \<Rightarrow> Inl e | Inr a \<Rightarrow> iradon a)"

definition Fop ::
  "(ndarray \<Rightarrow> error + ndarray) \<Rightarrow> (ndarray \<Rightarrow> error + ndarray) \<Rightarrow> globals \<Rightarrow> linop" where
  "Fop radon iradon g =
     FunctionOperator (mvec radon g) (rmvec iradon g)
       (int (arr_size (g_projection g))) (int (arr_size (g_image g)))"

text \<open>
  The four assignments of the demonstration, each on the globals the one before left:
  \<^verbatim>\<open>
    projection1 = Fop * image.ravel()
    projection1 = projection.reshape(projection.shape)
    image_adj = Fop.H * projection1.ravel()
    image_adj = image_adj.reshape(image.shape)
  \<close>
\<close>

definition adjoint_demo ::
  "(ndarray \<Rightarrow> error + ndarray) \<Rightarrow> (ndarray \<Rightarrow> error + ndarray) \<Rightarrow> globals \<Rightarrow> error + globals" where
  "adjoint_demo radon iradon g =
     (case matvec (Fop radon iradon g) (arr_data (arr_ravel (g_image g))) of
        Inl e \<Rightarrow> Inl e
      | Inr p1 \<Rightarrow>
         (let g1 = g\<lparr>g_projection1 := vector p1\<rparr> in
          case arr_reshape (g_projection g1) (arr_shape (g_projection g1)) of
            Inl e \<Rightarrow> Inl e
          | Inr p \<Rightarrow>
             (let g2 = g1\<lparr>g_projection1 := p\<rparr> in
              case matvec (adjoint_op (Fop radon iradon g2)) (arr_data (arr_ravel (g_projection1 g2))) of
                Inl e \<Rightarrow> Inl e
              | Inr a \<Rightarrow>
                 (let g3 = g2\<lparr>g_image_adj := vector a\<rparr> in
                  case arr_reshape (g_image_adj g3) (arr_shape (g_image g3)) of
                    Inl e \<Rightarrow> Inl e
                  | Inr a2 \<Rightarrow> Inr (g3\<lparr>g_image_adj := a2\<rparr>)))))"

section \<open>Notions the statements use\<close>

text \<open>
  The offsets of the grid points from the centre \<open>(nx // 2, ny // 2)\<close>, in row-major order.
\<close>

definition offsets :: "int \<times> int \<Rightarrow> int \<Rightarrow> (int \<times> int) list" where
  "offsets dims inner = (case dims of (nx, ny) \<Rightarrow>
     List.product (map (\<lambda>v. v - nx div 2 + inner div 2) (arange (nx - inner)))
                  (map (\<lambda>v. v - ny div 2 + inner div 2) (arange (ny - inner))))"

text \<open>
  The offset \<open>(a, b)\<close> turned by the angle \<open>theta\<close> (in radians) with the rotation matrix
  \<open>[[cos theta, - sin theta], [sin theta, cos theta]]\<close> and moved back by the centre.
\<close>

definition rotated_point :: "int \<times> int \<Rightarrow> real \<Rightarrow> int \<times> int \<Rightarrow> real \<times> real" where
  "rotated_point dims theta p = (case dims of (nx, ny) \<Rightarrow> case p of (a, b) \<Rightarrow>
     (cos theta * real_of_int a - sin theta * real_of_int b + real_of_int (nx div 2),
      sin theta * real_of_int a + cos theta * real_of_int b + real_of_int (ny div 2)))"

text \<open>The \<open>2 \<times> P\<close> array of the rotated coordinates of all grid points.\<close>

definition rotated_coords :: "int \<times> int \<Rightarrow> int \<Rightarrow> real \<Rightarrow> real list list" where
  "rotated_coords dims inner theta =
     [map (\<lambda>p. fst (rotated_point dims theta p)) (offsets dims inner),
      map (\<lambda>p. snd (rotated_point dims theta p)) (offsets dims inner)]"

text \<open>
  A point whose four interpolation samples are samples of the \<open>nx \<times> ny\<close> image: its
  coordinates \<open>(u, v)\<close> satisfy \<open>0 \<le> u < nx - 1\<close> and \<open>0 \<le> v < ny - 1\<close>.
\<close>

definition inside :: "int \<times> int \<Rightarrow> real \<times> real \<Rightarrow> bool" where
  "inside dims p \<longleftrightarrow>
     0 \<le> fst p \<and> fst p < real_of_int (fst dims) - 1 \<and>
     0 \<le> snd p \<and> snd p < real_of_int (snd dims) - 1"

text \<open>Every rotated grid point of every angle (in degrees) is such a point.\<close>

definition grid_inside :: "int \<times> int \<Rightarrow> int \<Rightarrow> real list \<Rightarrow> bool" where
  "grid_inside dims inner thetas \<longleftrightarrow>
     (\<forall>theta \<in> set thetas.
        \<forall>p \<in> set (points (rotated_coords dims inner (deg2rad theta))). inside dims p)"

text \<open>
  An operator whose forward and adjoint results, where both exist, satisfy the identity of
  the dot-product test; and an operator that returns a result for every input of the
  right length.
\<close>

definition adjoint_pair :: "linop \<Rightarrow> bool" where
  "adjoint_pair A \<longleftrightarrow>
     (\<forall>x y u v. matvec A x = Inr u \<longrightarrow> rmatvec A y = Inr v \<longrightarrow> dot u y = dot x v)"

definition applicable :: "linop \<Rightarrow> bool" where
  "applicable A \<longleftrightarrow>
     (\<forall>x. int (length x) = snd (shape A) \<longrightarrow> (\<exists>u. matvec A x = Inr u)) \<and>
     (\<forall>y. int (length y) = fst (shape A) \<longrightarrow> (\<exists>v. rmatvec A y = Inr v))"

text \<open>
  The array without a border of \<open>k\<close> rows and \<open>k\<close> columns on every side, and the mean of
  the squared entries of an array (what the name MSE would stand for).
\<close>

definition interior :: "nat \<Rightarrow> 'a list list \<Rightarrow> 'a list list" where
  "interior k A = map (\<lambda>r. take (length r - 2 * k) (drop k r)) (take (length A - 2 * k) (drop k A))"

definition mean_squared :: "vec list \<Rightarrow> real" where
  "mean_squared D = sum_list (map (\<lambda>d. d\<^sup>2) (ravel D)) / real (length (ravel D))"

definition mean_squared_error :: "int \<Rightarrow> vec list \<Rightarrow> vec list \<Rightarrow> real" where
  "mean_squared_error pad rec img =
     mean_squared (map2 (map2 (-)) (interior (nat (pad div 2)) rec) (interior (nat (pad div 2)) img))"


section \<open>Lemmas on vectors and arrays\<close>

subsection \<open>Dot products and sums\<close>

lemma dot_Nil [simp]: "dot [] v = 0" "dot u [] = 0"
  by (simp_all add: dot_def)

lemma dot_Cons [simp]: "dot (a # u) (b # v) = a * b + dot u v"
  by (simp add: dot_def)

lemma dot_append: "dot (a @ b) y = dot a (take (length a) y) + dot b (drop (length a) y)"
proof (induction a arbitrary: y)
  case Nil
  then show ?case by simp
next
  case (Cons h a)
  then show ?case by (cases y) simp_all
qed

lemma dot_append2: "dot x (a @ b) = dot (take (length a) x) a + dot (drop (length a) x) b"
proof (induction a arbitrary: x)
  case Nil
  then show ?case by simp
next
  case (Cons h a)
  then show ?case by (cases x) simp_all
qed

lemma dot_add_right:
  "length a = length b \<Longrightarrow> dot x (map2 (+) a b) = dot x a + dot x b"
proof (induction a b arbitrary: x rule: list_induct2)
  case Nil
  then show ?case by simp
next
  case (Cons p a q b)
  then show ?case by (cases x) (simp_all add: algebra_simps)
qed

lemma dot_add_left:
  "length a = length b \<Longrightarrow> dot (map2 (+) a b) y = dot a y + dot b y"
proof (induction a b arbitrary: y rule: list_induct2)
  case Nil
  then show ?case by simp
next
  case (Cons p a q b)
  then show ?case by (cases y) (simp_all add: algebra_simps)
qed

lemma dot_zeros [simp]: "dot x (replicate n 0) = 0" "dot (replicate n 0) x = 0"
proof -
  show "dot x (replicate n 0) = 0"
  proof (induction n arbitrary: x)
    case 0
    then show ?case by simp
  next
    case (Suc n)
    then show ?case by (cases x) simp_all
  qed
  show "dot (replicate n 0) x = 0"
  proof (induction n arbitrary: x)
    case 0
    then show ?case by simp
  next
    case (Suc n)
    then show ?case by (cases x) simp_all
  qed
qed

lemma dot_update:
  "i < length z \<Longrightarrow> length x = length z \<Longrightarrow> dot x (z[i := z ! i + d]) = dot x z + x ! i * d"
proof (induction z arbitrary: i x)
  case Nil
  then show ?case by simp
next
  case (Cons a z)
  then obtain b x' where x: "x = b # x'" by (cases x) auto
  show ?case
  proof (cases i)
    case 0
    then show ?thesis using x by (simp add: algebra_simps)
  next
    case (Suc j)
    then show ?thesis using x Cons by simp
  qed
qed

lemma dot_self: "dot v v = sum_list (map (\<lambda>x. x\<^sup>2) v)"
  by (induction v) (simp_all add: dot_def power2_eq_square)

lemma sum_list_concat_map: "sum_list (map f (concat A)) = sum_list (map (\<lambda>r. sum_list (map f r)) A)"
  by (induction A) simp_all

lemma sum_list_map_nth: "sum_list (map g xs) = (\<Sum>i = 0..<length xs. g (xs ! i))"
proof -
  have "sum_list (map g xs) = (\<Sum>i = 0..<length (map g xs). map g xs ! i)"
    by (rule sum_list_sum_nth)
  also have "\<dots> = (\<Sum>i = 0..<length xs. g (xs ! i))"
    by (intro sum.cong) simp_all
  finally show ?thesis .
qed

lemma sum_list_take_drop:
  "k + l \<le> length xs \<Longrightarrow> sum_list (map f (take l (drop k xs))) = (\<Sum>i = k..<k + l. f (xs ! i))"
proof -
  assume h: "k + l \<le> length xs"
  have "sum_list (map f (take l (drop k xs))) = (\<Sum>i = 0..<l. f (take l (drop k xs) ! i))"
    using h by (simp add: sum_list_sum_nth)
  also have "\<dots> = (\<Sum>i = 0..<l. f (xs ! (k + i)))"
    using h by (intro sum.cong) simp_all
  also have "\<dots> = (\<Sum>i = k..<k + l. f (xs ! i))"
    using sum.shift_bounds_nat_ivl[of "\<lambda>i. f (xs ! i)" 0 k l] by (simp add: add.commute)
  finally show ?thesis .
qed

subsection \<open>Reshaping\<close>

lemma reshape2_Suc: "reshape2 (Suc m) n x = take n x # reshape2 m n (drop n x)"
proof -
  have "[0..<Suc m] = 0 # map Suc [0..<m]"
    by (simp add: upt_conv_Cons map_Suc_upt del: upt_Suc)
  then show ?thesis
    by (simp add: reshape2_def comp_def add.commute del: upt_Suc)
qed

lemma reshape2_rows:
  "length x = m * n \<Longrightarrow> \<forall>r \<in> set (reshape2 m n x). length r = n"
proof (induction m arbitrary: x)
  case 0
  then show ?case by (simp add: reshape2_def)
next
  case (Suc m)
  have "length (drop n x) = m * n" using Suc.prems by simp
  from Suc.IH[OF this] Suc.prems show ?case by (simp add: reshape2_Suc)
qed

lemma concat_reshape2: "length x = m * n \<Longrightarrow> concat (reshape2 m n x) = x"
proof (induction m arbitrary: x)
  case 0
  then show ?case by (simp add: reshape2_def)
next
  case (Suc m)
  have "length (drop n x) = m * n" using Suc.prems by simp
  from Suc.IH[OF this] show ?case by (simp add: reshape2_Suc)
qed

lemma reshape2_length [simp]: "length (reshape2 m n x) = m"
  by (simp add: reshape2_def)

lemma length_concat_rows:
  "\<forall>r \<in> set A. length r = n \<Longrightarrow> length (concat A) = length A * n"
  by (induction A) simp_all

lemma length_sum_axis0:
  "\<forall>r \<in> set rows. length r = n \<Longrightarrow> length (sum_axis0 n rows) = n"
  by (induction rows) (simp_all add: sum_axis0_def)

lemma length_tile_axis0: "length (tile_axis0 m y) = m * length y"
  by (induction m) (simp_all add: tile_axis0_def)

section \<open>Lemmas on the operators\<close>

subsection \<open>What a successful call returns\<close>

lemma matvec_length:
  assumes "matvec A x = Inr u"
  shows "int (length x) = snd (shape A)" "int (length u) = fst (shape A)"
    "length u = nat (fst (shape A))"
proof -
  from assms show 1: "int (length x) = snd (shape A)" and 2: "int (length u) = fst (shape A)"
    by (auto simp: matvec_def split: if_splits sum.splits)
  from 2 show "length u = nat (fst (shape A))" by linarith
qed

lemma rmatvec_length:
  assumes "rmatvec A y = Inr v"
  shows "int (length y) = fst (shape A)" "int (length v) = snd (shape A)"
  using assms by (auto simp: rmatvec_def split: if_splits sum.splits)

lemma Bilinear_Inr:
  assumes "Bilinear iava (nx, ny) = Inr B"
  shows "shape B = (int (length (iava ! 1)), nx * ny)"
    and "op_matvec B = (\<lambda>x.
            if nx < 0 \<or> ny < 0 then Inl ValueError
            else case collect (map (bilinear_taps (nx, ny)) (points iava)) of
                   Inl e \<Rightarrow> Inl e
                 | Inr taps \<Rightarrow> Inr (map (gather x) taps))"
    and "op_rmatvec B = (\<lambda>y.
            if nx < 0 \<or> ny < 0 then Inl ValueError
            else case collect (map (bilinear_taps (nx, ny)) (points iava)) of
                   Inl e \<Rightarrow> Inl e
                 | Inr taps \<Rightarrow> Inr (scatter (replicate (nat (nx * ny)) 0) (zip taps y)))"
  using assms by (auto simp: Bilinear_def split: if_splits)

lemma mul_op_Inr:
  assumes "mul_op A B = Inr C"
  shows "shape C = (fst (shape A), snd (shape B))"
    and "snd (shape A) = fst (shape B)"
    and "op_matvec C = (\<lambda>x. case matvec B x of Inl e \<Rightarrow> Inl e | Inr z \<Rightarrow> matvec A z)"
    and "op_rmatvec C = (\<lambda>y. case rmatvec A y of Inl e \<Rightarrow> Inl e | Inr z \<Rightarrow> rmatvec B z)"
  using assms by (auto simp: mul_op_def split: if_splits)

lemma VStack_ok:
  assumes "ops \<noteq> []" "\<forall>A \<in> set ops. shape A = (r, c)"
  shows "\<exists>P. VStack ops = Inr P \<and> shape P = (int (length ops) * r, c) \<and>
           op_matvec P = vstack_matvec ops \<and>
           op_rmatvec P = vstack_rmatvec (replicate (nat c) 0) ops"
proof -
  have "sum_list (map (\<lambda>B. fst (shape B)) ops) = int (length ops) * r"
    using assms(2) by (induction ops) (auto simp: algebra_simps)
  then show ?thesis using assms
    by (cases ops) (auto simp: VStack_def)
qed

lemma collect_Inr:
  "collect rs = Inr vs \<Longrightarrow> rs = map Inr vs"
proof (induction rs arbitrary: vs)
  case Nil
  then show ?case by simp
next
  case (Cons r rs)
  then show ?case by (auto split: sum.splits)
qed

lemma collect_map_Inr [simp]: "collect (map Inr vs) = Inr vs"
  by (induction vs) simp_all

lemma collect_total:
  "\<forall>r \<in> set rs. \<exists>v. r = Inr v \<Longrightarrow> \<exists>vs. collect rs = Inr vs \<and> length vs = length rs"
proof (induction rs)
  case Nil
  then show ?case by simp
next
  case (Cons r rs)
  then obtain v vs where "r = Inr v" "collect rs = Inr vs" "length vs = length rs" by auto
  then show ?case by simp
qed

subsection \<open>Forward and adjoint agree in the dot product\<close>

lemma Sum_adjoint_core:
  "length x = m * n \<Longrightarrow> length y = n \<Longrightarrow>
   dot (sum_axis0 n (reshape2 m n x)) y = dot x (tile_axis0 m y)"
proof (induction m arbitrary: x)
  case 0
  then show ?case by (simp add: reshape2_def sum_axis0_def tile_axis0_def)
next
  case (Suc m)
  have l: "length (drop n x) = m * n" using Suc.prems by simp
  have rows: "length (sum_axis0 n (reshape2 m n (drop n x))) = n"
    using reshape2_rows[OF l] by (rule length_sum_axis0)
  have "sum_axis0 n (reshape2 (Suc m) n x) =
        map2 (+) (take n x) (sum_axis0 n (reshape2 m n (drop n x)))"
    by (simp add: reshape2_Suc sum_axis0_def)
  moreover have "length (take n x) = n" using Suc.prems by simp
  ultimately have "dot (sum_axis0 n (reshape2 (Suc m) n x)) y =
      dot (take n x) y + dot (sum_axis0 n (reshape2 m n (drop n x))) y"
    using rows by (simp add: dot_add_left)
  also have "\<dots> = dot (take n x) y + dot (drop n x) (tile_axis0 m y)"
    using Suc.IH[OF l Suc.prems(2)] by simp
  also have "\<dots> = dot x (tile_axis0 (Suc m) y)"
    using Suc.prems(2) by (simp add: tile_axis0_def dot_append2)
  finally show ?case .
qed

lemma adjoint_pair_Sum_op: "adjoint_pair (Sum_op dims)"
proof -
  obtain m n where d: "dims = (m, n)" by (cases dims)
  show ?thesis
    unfolding adjoint_pair_def
  proof (intro allI impI)
    fix x y u v
    assume mv: "matvec (Sum_op dims) x = Inr u" and rv: "rmatvec (Sum_op dims) y = Inr v"
    from mv have nn: "0 \<le> m" "0 \<le> n" and lx: "int (length x) = m * n"
      and u: "u = sum_axis0 (nat n) (reshape2 (nat m) (nat n) x)"
      by (auto simp: matvec_def Sum_op_def d split: if_splits)
    from rv have ly: "int (length y) = n" and v: "v = tile_axis0 (nat m) y"
      by (auto simp: rmatvec_def Sum_op_def d split: if_splits)
    have "length x = nat m * nat n" using lx nn by (metis nat_int nat_mult_distrib)
    moreover have "length y = nat n" using ly by simp
    ultimately show "dot u y = dot x v" unfolding u v by (rule Sum_adjoint_core)
  qed
qed

lemma axis_index_less: "axis_index n i = Inr k \<Longrightarrow> k < nat n"
  by (auto simp: axis_index_def split: if_splits)

lemma flat_less: "a < nat nx \<Longrightarrow> b < nat ny \<Longrightarrow> a * nat ny + b < nat (nx * ny)"
proof -
  assume a: "a < nat nx" and b: "b < nat ny"
  then have nn: "0 \<le> nx" "0 \<le> ny" by auto
  have "a * nat ny + b < (a + 1) * nat ny" using b by simp
  also have "\<dots> \<le> nat nx * nat ny" using a by (intro mult_le_mono1) simp
  also have "\<dots> = nat (nx * ny)" using nn by (simp add: nat_mult_distrib)
  finally show ?thesis .
qed

lemma bilinear_taps_less:
  assumes "bilinear_taps (nx, ny) p = Inr taps"
  shows "\<forall>(i, w) \<in> set taps. i < nat (nx * ny)"
proof -
  obtain px py where p: "p = (px, py)" by (cases p)
  from assms show ?thesis
    by (auto simp: bilinear_taps_def p Let_def split: sum.splits
        dest!: axis_index_less intro!: flat_less)
qed

lemma length_add_at [simp]: "length (add_at z taps v) = length z"
  by (induction z taps v rule: add_at.induct) simp_all

lemma length_scatter [simp]: "length (scatter z tv) = length z"
  by (induction z tv rule: scatter.induct) simp_all

lemma dot_add_at:
  "\<forall>(i, w) \<in> set taps. i < length z \<Longrightarrow> length x = length z \<Longrightarrow>
   dot x (add_at z taps v) = dot x z + gather x taps * v"
proof (induction z taps v rule: add_at.induct)
  case (1 z v)
  then show ?case by (simp add: gather_def)
next
  case (2 z i w taps v)
  have "dot x (add_at (z[i := z ! i + v * w]) taps v) =
        dot x (z[i := z ! i + v * w]) + gather x taps * v"
    using 2 by simp
  also have "dot x (z[i := z ! i + v * w]) = dot x z + x ! i * (v * w)"
    using 2 by (simp add: dot_update)
  finally show ?case by (simp add: gather_def algebra_simps)
qed

lemma dot_scatter:
  "\<forall>taps \<in> set T. \<forall>(i, w) \<in> set taps. i < length z \<Longrightarrow> length x = length z \<Longrightarrow>
   dot x (scatter z (zip T y)) = dot x z + dot (map (gather x) T) y"
proof (induction T arbitrary: z y)
  case Nil
  then show ?case by simp
next
  case (Cons taps T)
  show ?case
  proof (cases y)
    case Nil
    then show ?thesis by simp
  next
    case (Cons v y')
    have "dot x (scatter (add_at z taps v) (zip T y')) =
          dot x (add_at z taps v) + dot (map (gather x) T) y'"
      using Cons.prems by (intro Cons.IH) simp_all
    also have "dot x (add_at z taps v) = dot x z + gather x taps * v"
      using Cons.prems by (intro dot_add_at) simp_all
    finally show ?thesis using Cons by simp
  qed
qed

lemma collect_taps_less:
  assumes "collect (map (bilinear_taps (nx, ny)) ps) = Inr T"
  shows "\<forall>taps \<in> set T. \<forall>(i, w) \<in> set taps. i < nat (nx * ny)"
proof
  fix taps assume "taps \<in> set T"
  then obtain k where k: "k < length T" "T ! k = taps" by (auto simp: in_set_conv_nth)
  from collect_Inr[OF assms] have m: "map (bilinear_taps (nx, ny)) ps = map Inr T" .
  then have "length ps = length T" by (metis length_map)
  with k m have "bilinear_taps (nx, ny) (ps ! k) = Inr taps"
    by (metis nth_map)
  then show "\<forall>(i, w) \<in> set taps. i < nat (nx * ny)" by (rule bilinear_taps_less)
qed

lemma adjoint_pair_Bilinear:
  assumes "Bilinear iava dims = Inr B"
  shows "adjoint_pair B"
  unfolding adjoint_pair_def
proof (intro allI impI)
  fix x y u v
  assume mv: "matvec B x = Inr u" and rv: "rmatvec B y = Inr v"
  obtain nx ny where d: "dims = (nx, ny)" by (cases dims)
  note B = Bilinear_Inr[OF assms[unfolded d]]
  from mv obtain T where T: "collect (map (bilinear_taps (nx, ny)) (points iava)) = Inr T"
    and u: "u = map (gather x) T" and lx: "int (length x) = nx * ny" and nn: "0 \<le> nx" "0 \<le> ny"
    by (auto simp: matvec_def B split: if_splits sum.splits)
  from rv T have v: "v = scatter (replicate (nat (nx * ny)) 0) (zip T y)"
    by (auto simp: rmatvec_def B split: if_splits sum.splits)
  have lx': "length x = length (replicate (nat (nx * ny)) (0::real))" using lx by simp
  have "\<forall>taps \<in> set T. \<forall>(i, w) \<in> set taps. i < length (replicate (nat (nx * ny)) (0::real))"
    using collect_taps_less[OF T] by simp
  from dot_scatter[OF this lx', of y] show "dot u y = dot x v"
    by (simp add: u v)
qed

lemma adjoint_pair_mul_op:
  assumes "mul_op A B = Inr C" "adjoint_pair A" "adjoint_pair B"
  shows "adjoint_pair C"
  unfolding adjoint_pair_def
proof (intro allI impI)
  fix x y u v
  assume mv: "matvec C x = Inr u" and rv: "rmatvec C y = Inr v"
  from assms(1) have C: "op_matvec C = (\<lambda>x. case matvec B x of Inl e \<Rightarrow> Inl e | Inr z \<Rightarrow> matvec A z)"
    "op_rmatvec C = (\<lambda>y. case rmatvec A y of Inl e \<Rightarrow> Inl e | Inr z \<Rightarrow> rmatvec B z)"
    by (auto simp: mul_op_def split: if_splits)
  from mv obtain z where z: "matvec B x = Inr z" "matvec A z = Inr u"
    by (auto simp: matvec_def[of C] C split: if_splits sum.splits)
  from rv obtain w where w: "rmatvec A y = Inr w" "rmatvec B w = Inr v"
    by (auto simp: rmatvec_def[of C] C split: if_splits sum.splits)
  have "dot u y = dot z w" using assms(2) z(2) w(1) by (auto simp: adjoint_pair_def)
  also have "\<dots> = dot x v" using assms(3) z(1) w(2) by (auto simp: adjoint_pair_def)
  finally show "dot u y = dot x v" .
qed

lemma vstack_adjoint_core:
  assumes "\<forall>A \<in> set ops. adjoint_pair A"
    and "vstack_matvec ops x = Inr u" "vstack_rmatvec acc ops y = Inr v" "length acc = length x"
  shows "dot u y + dot x acc = dot x v"
  using assms
proof (induction ops arbitrary: u acc y)
  case Nil
  then show ?case by simp
next
  case (Cons A ops)
  from Cons.prems(2) obtain u1 us where u1: "matvec A x = Inr u1"
    and us: "vstack_matvec ops x = Inr us" and u: "u = u1 @ us"
    by (auto split: sum.splits)
  define k where "k = nat (fst (shape A))"
  from Cons.prems(3) obtain v1 where v1: "rmatvec A (take k y) = Inr v1"
    and rest: "vstack_rmatvec (map2 (+) acc v1) ops (drop k y) = Inr v"
    by (auto simp: k_def split: sum.splits)
  have lu1: "length u1 = k" using matvec_length(3)[OF u1] by (simp add: k_def)
  have lv1: "length v1 = length x"
    using matvec_length(1)[OF u1] rmatvec_length(2)[OF v1] by linarith
  have lacc: "length (map2 (+) acc v1) = length x" using lv1 Cons.prems(4) by simp
  have ih: "dot us (drop k y) + dot x (map2 (+) acc v1) = dot x v"
    using Cons.IH[OF _ us rest lacc] Cons.prems(1) by simp
  have ad: "dot u1 (take k y) = dot x v1"
    using Cons.prems(1) u1 v1 by (auto simp: adjoint_pair_def)
  have "dot u y = dot u1 (take k y) + dot us (drop k y)"
    by (simp add: u dot_append lu1)
  moreover have "dot x (map2 (+) acc v1) = dot x acc + dot x v1"
    using lv1 Cons.prems(4) by (simp add: dot_add_right)
  ultimately show ?case using ih ad by simp
qed

lemma adjoint_pair_VStack:
  assumes "VStack ops = Inr P" "\<forall>A \<in> set ops. adjoint_pair A"
  shows "adjoint_pair P"
  unfolding adjoint_pair_def
proof (intro allI impI)
  fix x y u v
  assume mv: "matvec P x = Inr u" and rv: "rmatvec P y = Inr v"
  from assms(1) obtain A As where ops: "ops = A # As"
    by (cases ops) (auto simp: VStack_def)
  from assms(1) have P: "shape P = (sum_list (map (\<lambda>B. fst (shape B)) ops), snd (shape A))"
    "op_matvec P = vstack_matvec ops"
    "op_rmatvec P = vstack_rmatvec (replicate (nat (snd (shape A))) 0) ops"
    by (auto simp: VStack_def ops split: if_splits)
  from mv have u: "vstack_matvec ops x = Inr u" and lx: "int (length x) = snd (shape A)"
    by (auto simp: matvec_def P split: if_splits sum.splits)
  from rv have v: "vstack_rmatvec (replicate (nat (snd (shape A))) 0) ops y = Inr v"
    by (auto simp: rmatvec_def P split: if_splits sum.splits)
  have "length (replicate (nat (snd (shape A))) (0::real)) = length x" using lx by simp
  from vstack_adjoint_core[OF assms(2) u v this] show "dot u y = dot x v" by simp
qed

subsection \<open>When the operators return\<close>

lemma axis_index_inside:
  "0 \<le> i \<Longrightarrow> i < n \<Longrightarrow> axis_index n i = Inr (nat i)"
  by (simp add: axis_index_def)

lemma inside_taps:
  assumes "inside (nx, ny) p"
  shows "\<exists>taps. bilinear_taps (nx, ny) p = Inr taps"
proof -
  obtain px py where p: "p = (px, py)" by (cases p)
  from assms have x: "0 \<le> px" "px < real_of_int nx - 1" and y: "0 \<le> py" "py < real_of_int ny - 1"
    by (simp_all add: inside_def p)
  have fx: "0 \<le> \<lfloor>px\<rfloor>" "\<lfloor>px\<rfloor> + 1 < nx" using x by linarith+
  have fy: "0 \<le> \<lfloor>py\<rfloor>" "\<lfloor>py\<rfloor> + 1 < ny" using y by linarith+
  have "axis_index nx \<lfloor>px\<rfloor> = Inr (nat \<lfloor>px\<rfloor>)" "axis_index nx (\<lfloor>px\<rfloor> + 1) = Inr (nat (\<lfloor>px\<rfloor> + 1))"
    "axis_index ny \<lfloor>py\<rfloor> = Inr (nat \<lfloor>py\<rfloor>)" "axis_index ny (\<lfloor>py\<rfloor> + 1) = Inr (nat (\<lfloor>py\<rfloor> + 1))"
    using fx fy by (simp_all add: axis_index_inside)
  then show ?thesis by (simp add: bilinear_taps_def p Let_def)
qed

lemma applicable_Bilinear:
  assumes B: "Bilinear iava (nx, ny) = Inr B"
    and len: "length (iava ! 0) = length (iava ! 1)"
    and nn: "0 \<le> nx" "0 \<le> ny"
    and ins: "\<forall>p \<in> set (points iava). inside (nx, ny) p"
  shows "applicable B"
proof -
  note Bs = Bilinear_Inr[OF B]
  have "\<forall>r \<in> set (map (bilinear_taps (nx, ny)) (points iava)). \<exists>v. r = Inr v"
    using ins inside_taps by auto
  from collect_total[OF this] obtain T
    where T: "collect (map (bilinear_taps (nx, ny)) (points iava)) = Inr T"
      and lT: "length T = length (points iava)" by auto
  have lp: "length (points iava) = length (iava ! 1)" using len by (simp add: points_def)
  have nxy: "0 \<le> nx * ny" using nn by simp
  show ?thesis
    unfolding applicable_def
  proof (intro conjI allI impI)
    fix x :: vec assume "int (length x) = snd (shape B)"
    then show "\<exists>u. matvec B x = Inr u"
      using nn T lT lp by (simp add: matvec_def Bs)
  next
    fix y :: vec assume "int (length y) = fst (shape B)"
    then show "\<exists>v. rmatvec B y = Inr v"
      using nn T nxy by (simp add: rmatvec_def Bs)
  qed
qed

lemma applicable_Sum_op:
  assumes "0 \<le> m" "0 \<le> n"
  shows "applicable (Sum_op (m, n))"
  unfolding applicable_def
proof (intro conjI allI impI)
  fix x :: vec assume "int (length x) = snd (shape (Sum_op (m, n)))"
  then have lx: "int (length x) = m * n" by (simp add: Sum_op_def)
  then have "length x = nat m * nat n" using assms by (metis nat_int nat_mult_distrib)
  from reshape2_rows[OF this] have "length (sum_axis0 (nat n) (reshape2 (nat m) (nat n) x)) = nat n"
    by (rule length_sum_axis0)
  then show "\<exists>u. matvec (Sum_op (m, n)) x = Inr u"
    using assms lx by (simp add: matvec_def Sum_op_def)
next
  fix y :: vec assume "int (length y) = fst (shape (Sum_op (m, n)))"
  then have ly: "int (length y) = n" by (simp add: Sum_op_def)
  have "int (length (tile_axis0 (nat m) y)) = m * n"
    using assms ly by (simp add: length_tile_axis0)
  then show "\<exists>v. rmatvec (Sum_op (m, n)) y = Inr v"
    using assms ly by (simp add: rmatvec_def Sum_op_def)
qed

lemma applicable_mul_op:
  assumes C: "mul_op A B = Inr C" and A: "applicable A" and B: "applicable B"
  shows "applicable C"
  unfolding applicable_def
proof (intro conjI allI impI)
  note Cs = mul_op_Inr[OF C]
  fix x :: vec assume lx: "int (length x) = snd (shape C)"
  then obtain z where z: "matvec B x = Inr z" using B by (auto simp: applicable_def Cs)
  then have "int (length z) = snd (shape A)" using matvec_length(2)[OF z] Cs by simp
  then obtain u where u: "matvec A z = Inr u" using A by (auto simp: applicable_def)
  show "\<exists>u. matvec C x = Inr u"
    using lx z u matvec_length(2)[OF u] by (simp add: matvec_def[of C] Cs)
next
  note Cs = mul_op_Inr[OF C]
  fix y :: vec assume ly: "int (length y) = fst (shape C)"
  then obtain z where z: "rmatvec A y = Inr z" using A by (auto simp: applicable_def Cs)
  then have "int (length z) = fst (shape B)" using rmatvec_length(2)[OF z] Cs by simp
  then obtain v where v: "rmatvec B z = Inr v" using B by (auto simp: applicable_def)
  show "\<exists>v. rmatvec C y = Inr v"
    using ly z v rmatvec_length(2)[OF v] by (simp add: rmatvec_def[of C] Cs)
qed

lemma vstack_matvec_total:
  assumes "\<forall>A \<in> set ops. applicable A \<and> snd (shape A) = int (length x)"
  shows "\<exists>u. vstack_matvec ops x = Inr u \<and> int (length u) = sum_list (map (\<lambda>B. fst (shape B)) ops)"
  using assms
proof (induction ops)
  case Nil
  then show ?case by simp
next
  case (Cons A ops)
  then obtain u1 where u1: "matvec A x = Inr u1" by (auto simp: applicable_def)
  from Cons obtain us where us: "vstack_matvec ops x = Inr us"
    "int (length us) = sum_list (map (\<lambda>B. fst (shape B)) ops)" by auto
  show ?case using u1 us matvec_length(2)[OF u1] by simp
qed

lemma vstack_rmatvec_total:
  assumes "\<forall>A \<in> set ops. applicable A \<and> snd (shape A) = int (length acc) \<and> 0 \<le> fst (shape A)"
    and "int (length y) = sum_list (map (\<lambda>B. fst (shape B)) ops)"
  shows "\<exists>v. vstack_rmatvec acc ops y = Inr v \<and> length v = length acc"
  using assms
proof (induction ops arbitrary: acc y)
  case Nil
  then show ?case by simp
next
  case (Cons A ops)
  define k where "k = nat (fst (shape A))"
  have k: "int k = fst (shape A)" using Cons.prems(1) by (simp add: k_def)
  have rest0: "0 \<le> sum_list (map (\<lambda>B. fst (shape B)) ops)"
    using Cons.prems(1) by (intro sum_list_nonneg) auto
  have lt: "int (length (take k y)) = fst (shape A)"
    using Cons.prems(2) k rest0 by simp
  have "applicable A" using Cons.prems(1) by simp
  then have "\<exists>v. rmatvec A (take k y) = Inr v"
    unfolding applicable_def using lt by blast
  then obtain v1 where v1: "rmatvec A (take k y) = Inr v1" ..
  have lv1: "length v1 = length acc"
    using rmatvec_length(2)[OF v1] Cons.prems(1) by simp
  have "int (length (drop k y)) = sum_list (map (\<lambda>B. fst (shape B)) ops)"
    using Cons.prems(2) k rest0 by simp
  moreover have "\<forall>B \<in> set ops. applicable B \<and> snd (shape B) = int (length (map2 (+) acc v1)) \<and> 0 \<le> fst (shape B)"
    using Cons.prems(1) lv1 by simp
  ultimately obtain v where "vstack_rmatvec (map2 (+) acc v1) ops (drop k y) = Inr v"
    "length v = length (map2 (+) acc v1)"
    using Cons.IH by blast
  then show ?case using v1 lv1 by (simp add: k_def)
qed

lemma applicable_VStack:
  assumes P: "VStack ops = Inr P"
    and ops: "\<forall>A \<in> set ops. applicable A \<and> 0 \<le> fst (shape A) \<and> 0 \<le> snd (shape A)"
  shows "applicable P"
proof -
  from P obtain A As where o: "ops = A # As" by (cases ops) (auto simp: VStack_def)
  from P have Ps: "shape P = (sum_list (map (\<lambda>B. fst (shape B)) ops), snd (shape A))"
    "op_matvec P = vstack_matvec ops"
    "op_rmatvec P = vstack_rmatvec (replicate (nat (snd (shape A))) 0) ops"
    and same: "\<forall>B \<in> set ops. snd (shape B) = snd (shape A)"
    by (auto simp: VStack_def o split: if_splits)
  have A0: "0 \<le> snd (shape A)" using ops o by simp
  show ?thesis
    unfolding applicable_def
  proof (intro conjI allI impI)
    fix x :: vec assume "int (length x) = snd (shape P)"
    then have lx: "int (length x) = snd (shape A)" by (simp add: Ps)
    then have "\<forall>B \<in> set ops. applicable B \<and> snd (shape B) = int (length x)"
      using ops same by simp
    from vstack_matvec_total[OF this] lx show "\<exists>u. matvec P x = Inr u"
      by (auto simp: matvec_def Ps)
  next
    fix y :: vec assume "int (length y) = fst (shape P)"
    then have ly: "int (length y) = sum_list (map (\<lambda>B. fst (shape B)) ops)" by (simp add: Ps)
    have "\<forall>B \<in> set ops. applicable B \<and>
        snd (shape B) = int (length (replicate (nat (snd (shape A))) (0::real))) \<and> 0 \<le> fst (shape B)"
      using ops same A0 by simp
    from vstack_rmatvec_total[OF this ly] ly A0 show "\<exists>v. rmatvec P y = Inr v"
      by (auto simp: rmatvec_def Ps)
  qed
qed

section \<open>Lemmas on RadonRotate\<close>

subsection \<open>The grid and its rotation\<close>

lemma ravel_meshgrid_fst: "ravel (fst (meshgrid_ij x y)) = map fst (List.product x y)"
  by (induction x) (simp_all add: ravel_def meshgrid_ij_def comp_def)

lemma ravel_meshgrid_snd: "ravel (snd (meshgrid_ij x y)) = map snd (List.product x y)"
  by (induction x) (simp_all add: ravel_def meshgrid_ij_def comp_def)

lemma grid_offsets: "grid dims inner = [map fst (offsets dims inner), map snd (offsets dims inner)]"
  by (simp add: grid_def offsets_def Let_def ravel_meshgrid_fst ravel_meshgrid_snd split: prod.splits)

lemma matmul_rot:
  "matmul [[a, b], [c, d]] [map (\<lambda>p. real_of_int (fst p)) ps, map (\<lambda>p. real_of_int (snd p)) ps] =
     [map (\<lambda>p. a * real_of_int (fst p) + b * real_of_int (snd p)) ps,
      map (\<lambda>p. c * real_of_int (fst p) + d * real_of_int (snd p)) ps]"
  by (auto simp: matmul_def intro!: nth_equalityI)

lemma rotate_grid_offsets:
  "rotate_grid dims (grid dims inner) theta =
     [map (\<lambda>p. fst (rotated_point dims theta p)) (offsets dims inner),
      map (\<lambda>p. snd (rotated_point dims theta p)) (offsets dims inner)]"
proof -
  obtain nx ny where d: "dims = (nx, ny)" by (cases dims)
  have g: "map (map real_of_int) (grid dims inner) =
      [map (\<lambda>p. real_of_int (fst p)) (offsets dims inner),
       map (\<lambda>p. real_of_int (snd p)) (offsets dims inner)]"
    by (simp add: grid_offsets comp_def)
  have "rotate_grid dims (grid dims inner) theta =
      [map (\<lambda>v. v + real_of_int (nx div 2))
         (map (\<lambda>p. cos theta * real_of_int (fst p) + - sin theta * real_of_int (snd p))
            (offsets dims inner)),
       map (\<lambda>v. v + real_of_int (ny div 2))
         (map (\<lambda>p. sin theta * real_of_int (fst p) + cos theta * real_of_int (snd p))
            (offsets dims inner))]"
    unfolding rotate_grid_def g matmul_rot Let_def by (simp add: d)
  also have "\<dots> = [map (\<lambda>p. fst (rotated_point dims theta p)) (offsets dims inner),
      map (\<lambda>p. snd (rotated_point dims theta p)) (offsets dims inner)]"
    by (simp add: rotated_point_def d split: prod.splits)
  finally show ?thesis .
qed

lemma rotate_grid_rotated_coords:
  "rotate_grid dims (grid dims inner) theta = rotated_coords dims inner theta"
  by (simp add: rotate_grid_offsets rotated_coords_def)

lemma points_rotate_grid:
  "points (rotate_grid dims (grid dims inner) theta) = map (rotated_point dims theta) (offsets dims inner)"
  by (simp add: rotate_grid_offsets points_def zip_map_map zip_same_conv_map comp_def)

lemma points_rotated_coords:
  "points (rotated_coords dims inner theta) = map (rotated_point dims theta) (offsets dims inner)"
  using points_rotate_grid[of dims inner theta] by (simp add: rotate_grid_rotated_coords)

lemma distinct_offsets: "distinct (offsets dims inner)"
proof -
  have "distinct (map (\<lambda>v. v + c) (arange n))" for c n :: int
    by (simp add: arange_def distinct_map inj_on_def)
  then show ?thesis
    by (auto simp: offsets_def diff_conv_add_uminus add.assoc simp del: add_uminus_conv_diff intro!: distinct_product split: prod.splits)
qed

lemma inj_rotated_point: "inj (rotated_point dims theta)"
proof (rule injI)
  fix p q assume e: "rotated_point dims theta p = rotated_point dims theta q"
  obtain nx ny where d: "dims = (nx, ny)" by (cases dims)
  obtain a b where p: "p = (a, b)" by (cases p)
  obtain a' b' where q: "q = (a', b')" by (cases q)
  define u where "u = real_of_int a - real_of_int a'"
  define v where "v = real_of_int b - real_of_int b'"
  define c where "c = cos theta"
  define s where "s = sin theta"
  have cs: "c * c + s * s = 1"
    using sin_cos_squared_add2[of theta] by (simp add: c_def s_def power2_eq_square)
  from e have 1: "c * u - s * v = 0" and 2: "s * u + c * v = 0"
    by (simp_all add: rotated_point_def d p q u_def v_def c_def s_def algebra_simps)
  have "u = (c * c + s * s) * u" using cs by simp
  also have "\<dots> = c * (c * u - s * v) + s * (s * u + c * v)" by (simp add: algebra_simps)
  also have "\<dots> = 0" using 1 2 by simp
  finally have u0: "u = 0" .
  have "v = (c * c + s * s) * v" using cs by simp
  also have "\<dots> = c * (s * u + c * v) - s * (c * u - s * v)" by (simp add: algebra_simps)
  also have "\<dots> = 0" using 1 2 by simp
  finally have v0: "v = 0" .
  from u0 v0 show "p = q" by (simp add: p q u_def v_def)
qed

lemma distinct_points_rotate_grid:
  "distinct (points (rotate_grid dims (grid dims inner) theta))"
  by (simp add: points_rotate_grid distinct_map distinct_offsets inj_rotated_point[THEN inj_on_subset])

lemma length_offsets:
  "length (offsets (nx, ny) inner) = nat (nx - inner) * nat (ny - inner)"
  by (simp add: offsets_def arange_def)

lemma offsets_nonempty: "inner < nx \<Longrightarrow> inner < ny \<Longrightarrow> offsets (nx, ny) inner \<noteq> []"
  using length_offsets[of nx ny inner] by (auto simp del: length_0_conv simp flip: length_0_conv)

lemma offsets_range:
  assumes "(a, b) \<in> set (offsets (nx, ny) inner)"
  shows "inner div 2 - nx div 2 \<le> a \<and> a \<le> nx - inner - 1 - nx div 2 + inner div 2 \<and>
         inner div 2 - ny div 2 \<le> b \<and> b \<le> ny - inner - 1 - ny div 2 + inner div 2"
  using assms by (auto simp: offsets_def arange_def)

lemma inside_nonneg_dims:
  assumes "inside (nx, ny) p"
  shows "0 \<le> nx \<and> 0 \<le> ny"
  using assms by (simp add: inside_def)

subsection \<open>The operators of the loop and their stack\<close>

lemma Bilinear_rotate_grid:
  "\<exists>B. Bilinear (rotate_grid dims (grid dims inner) theta) dims = Inr B \<and>
       shape B = (int (length (offsets dims inner)), fst dims * snd dims)"
  using distinct_points_rotate_grid[of dims inner theta]
  by (simp add: Bilinear_def rotate_grid_offsets split: prod.splits)

lemma angle_op_ok:
  assumes "inner \<le> nx" "inner \<le> ny"
  shows "\<exists>B SB. Bilinear (rotate_grid (nx, ny) (grid (nx, ny) inner) theta) (nx, ny) = Inr B \<and>
           mul_op (Sum_op (nx - inner, ny - inner)) B = Inr SB \<and>
           shape SB = (ny - inner, nx * ny)"
proof -
  obtain B where B: "Bilinear (rotate_grid (nx, ny) (grid (nx, ny) inner) theta) (nx, ny) = Inr B"
    and sB: "shape B = (int (length (offsets (nx, ny) inner)), nx * ny)"
    using Bilinear_rotate_grid[of "(nx, ny)" inner theta] by auto
  have "int (length (offsets (nx, ny) inner)) = (nx - inner) * (ny - inner)"
    using assms by (simp add: length_offsets)
  then have "\<exists>SB. mul_op (Sum_op (nx - inner, ny - inner)) B = Inr SB \<and> shape SB = (ny - inner, nx * ny)"
    by (simp add: mul_op_def Sum_op_def sB)
  with B show ?thesis by blast
qed

lemma RadonRotate_loop_ops:
  assumes "inner \<le> nx" "inner \<le> ny"
  shows "\<exists>ops. RadonRotate_loop (nx, ny) inner (grid (nx, ny) inner) Rops ths = Inr (Rops @ ops) \<and>
           length ops = length ths \<and>
           (\<forall>i < length ths. \<exists>B.
               Bilinear (rotate_grid (nx, ny) (grid (nx, ny) inner) (ths ! i)) (nx, ny) = Inr B \<and>
               mul_op (Sum_op (nx - inner, ny - inner)) B = Inr (ops ! i) \<and>
               shape (ops ! i) = (ny - inner, nx * ny))"
proof (induction ths arbitrary: Rops)
  case Nil
  then show ?case by simp
next
  case (Cons theta ths)
  obtain B SB where B: "Bilinear (rotate_grid (nx, ny) (grid (nx, ny) inner) theta) (nx, ny) = Inr B"
    and SB: "mul_op (Sum_op (nx - inner, ny - inner)) B = Inr SB"
    and sh: "shape SB = (ny - inner, nx * ny)"
    using angle_op_ok[OF assms, of theta] by blast
  obtain ops where l: "RadonRotate_loop (nx, ny) inner (grid (nx, ny) inner) (Rops @ [SB]) ths = Inr ((Rops @ [SB]) @ ops)"
    and n: "length ops = length ths"
    and a: "\<forall>i < length ths. \<exists>B.
               Bilinear (rotate_grid (nx, ny) (grid (nx, ny) inner) (ths ! i)) (nx, ny) = Inr B \<and>
               mul_op (Sum_op (nx - inner, ny - inner)) B = Inr (ops ! i) \<and>
               shape (ops ! i) = (ny - inner, nx * ny)"
    using Cons.IH[of "Rops @ [SB]"] by blast
  have "RadonRotate_loop (nx, ny) inner (grid (nx, ny) inner) Rops (theta # ths) = Inr (Rops @ (SB # ops))"
    using B SB l by simp
  moreover have "length (SB # ops) = length (theta # ths)" using n by simp
  moreover have "\<forall>i < length (theta # ths). \<exists>B.
               Bilinear (rotate_grid (nx, ny) (grid (nx, ny) inner) ((theta # ths) ! i)) (nx, ny) = Inr B \<and>
               mul_op (Sum_op (nx - inner, ny - inner)) B = Inr ((SB # ops) ! i) \<and>
               shape ((SB # ops) ! i) = (ny - inner, nx * ny)"
  proof (intro allI impI)
    fix i assume "i < length (theta # ths)"
    then show "\<exists>B. Bilinear (rotate_grid (nx, ny) (grid (nx, ny) inner) ((theta # ths) ! i)) (nx, ny) = Inr B \<and>
               mul_op (Sum_op (nx - inner, ny - inner)) B = Inr ((SB # ops) ! i) \<and>
               shape ((SB # ops) ! i) = (ny - inner, nx * ny)"
      using B SB sh a by (cases i) auto
  qed
  ultimately show ?case by blast
qed

lemma RadonRotate_ops:
  assumes "inner \<le> nx" "inner \<le> ny" "thetas \<noteq> []"
  shows "\<exists>ops P. RadonRotate (nx, ny) inner thetas = Inr P \<and> VStack ops = Inr P \<and>
           length ops = length thetas \<and>
           (\<forall>i < length thetas. \<exists>B.
               Bilinear (rotate_grid (nx, ny) (grid (nx, ny) inner) (deg2rad (thetas ! i))) (nx, ny) = Inr B \<and>
               mul_op (Sum_op (nx - inner, ny - inner)) B = Inr (ops ! i) \<and>
               shape (ops ! i) = (ny - inner, nx * ny))"
proof -
  obtain ops where l: "RadonRotate_loop (nx, ny) inner (grid (nx, ny) inner) [] (map deg2rad thetas) = Inr ([] @ ops)"
    and n: "length ops = length (map deg2rad thetas)"
    and a: "\<forall>i < length (map deg2rad thetas). \<exists>B.
               Bilinear (rotate_grid (nx, ny) (grid (nx, ny) inner) (map deg2rad thetas ! i)) (nx, ny) = Inr B \<and>
               mul_op (Sum_op (nx - inner, ny - inner)) B = Inr (ops ! i) \<and>
               shape (ops ! i) = (ny - inner, nx * ny)"
    using RadonRotate_loop_ops[OF assms(1,2), of "[]" "map deg2rad thetas"] by blast
  have ne: "ops \<noteq> []" using n assms(3) by auto
  have "\<forall>A \<in> set ops. shape A = (ny - inner, nx * ny)"
    using a n by (auto simp: in_set_conv_nth)
  then obtain P where P: "VStack ops = Inr P" using VStack_ok[OF ne] by blast
  have "RadonRotate (nx, ny) inner thetas = Inr P" using l P by (simp add: RadonRotate_def)
  then show ?thesis using P n a by auto
qed

lemma RadonRotate_shape:
  assumes "inner \<le> nx" "inner \<le> ny" "thetas \<noteq> []"
  shows "\<exists>P. RadonRotate (nx, ny) inner thetas = Inr P \<and>
           shape P = (int (length thetas) * (ny - inner), nx * ny)"
proof -
  from RadonRotate_ops[OF assms] obtain ops P where P: "RadonRotate (nx, ny) inner thetas = Inr P"
    "VStack ops = Inr P" and n: "length ops = length thetas"
    and a: "\<forall>i < length thetas. shape (ops ! i) = (ny - inner, nx * ny)" by blast
  have ne: "ops \<noteq> []" using n assms(3) by auto
  have "\<forall>A \<in> set ops. shape A = (ny - inner, nx * ny)"
    using a n by (auto simp: in_set_conv_nth)
  from VStack_ok[OF ne this] P n show ?thesis by auto
qed

lemma RadonRotate_loop_adjoint:
  assumes "RadonRotate_loop dims inner XY Rops ths = Inr ops" "\<forall>A \<in> set Rops. adjoint_pair A"
  shows "\<forall>A \<in> set ops. adjoint_pair A"
  using assms
proof (induction ths arbitrary: Rops)
  case Nil
  then show ?case by simp
next
  case (Cons theta ths)
  from Cons.prems(1) obtain B SB where B: "Bilinear (rotate_grid dims XY theta) dims = Inr B"
    and SB: "mul_op (Sum_op (fst dims - inner, snd dims - inner)) B = Inr SB"
    and l: "RadonRotate_loop dims inner XY (Rops @ [SB]) ths = Inr ops"
    by (auto split: sum.splits)
  have "adjoint_pair SB"
    using adjoint_pair_mul_op[OF SB adjoint_pair_Sum_op adjoint_pair_Bilinear[OF B]] .
  with Cons.prems(2) have "\<forall>A \<in> set (Rops @ [SB]). adjoint_pair A" by simp
  from Cons.IH[OF l this] show ?case .
qed

lemma RadonRotate_adjoint:
  assumes "RadonRotate dims inner thetas = Inr P"
  shows "adjoint_pair P"
proof -
  from assms obtain ops where l: "RadonRotate_loop dims inner (grid dims inner) [] (map deg2rad thetas) = Inr ops"
    and P: "VStack ops = Inr P"
    by (auto simp: RadonRotate_def split: sum.splits)
  have "\<forall>A \<in> set ops. adjoint_pair A" using RadonRotate_loop_adjoint[OF l] by simp
  with P show ?thesis by (rule adjoint_pair_VStack)
qed

lemma angle_op_applicable:
  assumes "inner < nx" "inner < ny"
    and ins: "\<forall>p \<in> set (points (rotated_coords (nx, ny) inner theta)). inside (nx, ny) p"
    and B: "Bilinear (rotate_grid (nx, ny) (grid (nx, ny) inner) theta) (nx, ny) = Inr B"
    and SB: "mul_op (Sum_op (nx - inner, ny - inner)) B = Inr SB"
  shows "applicable SB"
proof -
  from offsets_nonempty[OF assms(1,2)] obtain q where "q \<in> set (offsets (nx, ny) inner)"
    by (cases "offsets (nx, ny) inner") auto
  then have "rotated_point (nx, ny) theta q \<in> set (points (rotated_coords (nx, ny) inner theta))"
    by (simp add: points_rotated_coords)
  with ins have "inside (nx, ny) (rotated_point (nx, ny) theta q)" by blast
  then have nn: "0 \<le> nx" "0 \<le> ny" using inside_nonneg_dims by blast+
  have len: "length (rotated_coords (nx, ny) inner theta ! 0) = length (rotated_coords (nx, ny) inner theta ! 1)"
    by (simp add: rotated_coords_def)
  have "applicable B"
    using applicable_Bilinear[OF B[unfolded rotate_grid_rotated_coords] len nn ins] .
  moreover have "applicable (Sum_op (nx - inner, ny - inner))"
    using assms(1,2) by (intro applicable_Sum_op) simp_all
  ultimately show ?thesis using applicable_mul_op[OF SB] by blast
qed

lemma RadonRotate_applicable:
  assumes "inner < nx" "inner < ny" "thetas \<noteq> []" "grid_inside (nx, ny) inner thetas"
    and P: "RadonRotate (nx, ny) inner thetas = Inr P"
  shows "applicable P"
proof -
  from RadonRotate_ops[of inner nx ny thetas] assms(1-3) P
  obtain ops where V: "VStack ops = Inr P" and n: "length ops = length thetas"
    and a: "\<forall>i < length thetas. \<exists>B.
               Bilinear (rotate_grid (nx, ny) (grid (nx, ny) inner) (deg2rad (thetas ! i))) (nx, ny) = Inr B \<and>
               mul_op (Sum_op (nx - inner, ny - inner)) B = Inr (ops ! i) \<and>
               shape (ops ! i) = (ny - inner, nx * ny)"
    by auto
  have "\<forall>A \<in> set ops. applicable A \<and> 0 \<le> fst (shape A) \<and> 0 \<le> snd (shape A)"
  proof
    fix A assume "A \<in> set ops"
    then obtain i where i: "i < length thetas" "A = ops ! i" using n by (auto simp: in_set_conv_nth)
    with a obtain B where B: "Bilinear (rotate_grid (nx, ny) (grid (nx, ny) inner) (deg2rad (thetas ! i))) (nx, ny) = Inr B"
      and SB: "mul_op (Sum_op (nx - inner, ny - inner)) B = Inr A"
      and sh: "shape A = (ny - inner, nx * ny)" by blast
    have ins: "\<forall>p \<in> set (points (rotated_coords (nx, ny) inner (deg2rad (thetas ! i)))). inside (nx, ny) p"
      using assms(4) i(1) by (auto simp: grid_inside_def)
    have ap: "applicable A" using angle_op_applicable[OF assms(1,2) ins B SB] .
    from offsets_nonempty[OF assms(1,2)] obtain q where "q \<in> set (offsets (nx, ny) inner)"
      by (cases "offsets (nx, ny) inner") auto
    then have "rotated_point (nx, ny) (deg2rad (thetas ! i)) q
        \<in> set (points (rotated_coords (nx, ny) inner (deg2rad (thetas ! i))))"
      by (simp add: points_rotated_coords)
    with ins have "0 \<le> nx \<and> 0 \<le> ny" using inside_nonneg_dims by blast
    then show "applicable A \<and> 0 \<le> fst (shape A) \<and> 0 \<le> snd (shape A)"
      using ap sh assms(1,2) by simp
  qed
  with V show ?thesis by (rule applicable_VStack)
qed

subsection \<open>The notebook's parameters: a 300 by 300 image and a margin of 100\<close>

lemma rotation_norm:
  fixes t a b :: real
  shows "(cos t * a - sin t * b)\<^sup>2 + (sin t * a + cos t * b)\<^sup>2 = a\<^sup>2 + b\<^sup>2"
proof -
  have "(cos t * a - sin t * b)\<^sup>2 + (sin t * a + cos t * b)\<^sup>2 =
        ((cos t)\<^sup>2 + (sin t)\<^sup>2) * (a\<^sup>2 + b\<^sup>2)"
    by algebra
  then show ?thesis by simp
qed

lemma notebook_point:
  assumes "p \<in> set (points (rotated_coords (300, 300) 100 theta))"
  shows "(fst p - 150)\<^sup>2 + (snd p - 150)\<^sup>2 \<le> 20000 \<and>
         8 < fst p \<and> fst p < 292 \<and> 8 < snd p \<and> snd p < 292"
proof -
  from assms obtain a b where ab: "(a, b) \<in> set (offsets (300, 300) 100)"
    and p: "p = rotated_point (300, 300) theta (a, b)"
    by (auto simp: points_rotated_coords)
  from offsets_range[OF ab] have r: "- 100 \<le> a" "a \<le> 99" "- 100 \<le> b" "b \<le> 99" by simp_all
  define u where "u = cos theta * real_of_int a - sin theta * real_of_int b"
  define v where "v = sin theta * real_of_int a + cos theta * real_of_int b"
  have pu: "fst p = u + 150" "snd p = v + 150" by (simp_all add: p rotated_point_def u_def v_def)
  have "\<bar>real_of_int a\<bar> \<le> 100" "\<bar>real_of_int b\<bar> \<le> 100" using r by linarith+
  then have "(real_of_int a)\<^sup>2 \<le> 100\<^sup>2" "(real_of_int b)\<^sup>2 \<le> 100\<^sup>2"
    by (metis abs_le_square_iff abs_numeral)+
  then have "(real_of_int a)\<^sup>2 + (real_of_int b)\<^sup>2 \<le> 20000" by simp
  then have n: "u\<^sup>2 + v\<^sup>2 \<le> 20000"
    using rotation_norm[of theta "real_of_int a" "real_of_int b"] by (simp add: u_def v_def)
  have "u\<^sup>2 \<le> 20000" "v\<^sup>2 \<le> 20000"
    using n zero_le_power2[of u] zero_le_power2[of v] by linarith+
  then have "u\<^sup>2 < 142\<^sup>2" "v\<^sup>2 < 142\<^sup>2" by simp_all
  then have "\<bar>u\<bar> < 142" "\<bar>v\<bar> < 142"
    using power2_less_imp_less[of "\<bar>u\<bar>" 142] power2_less_imp_less[of "\<bar>v\<bar>" 142]
    by simp_all
  then show ?thesis using n by (simp add: pu) linarith
qed

lemma notebook_grid_inside: "grid_inside (300, 300) 100 thetas"
  unfolding grid_inside_def
proof (intro ballI)
  fix theta p assume "p \<in> set (points (rotated_coords (300, 300) 100 (deg2rad theta)))"
  from notebook_point[OF this] show "inside (300, 300) p" by (simp add: inside_def)
qed

lemma length_notebook_thetas: "length notebook_thetas = 60"
  by (simp add: notebook_thetas_def arange_step_def arange_def)

lemma corner_offset: "(- 100, - 100) \<in> set (offsets (300, 300) 100)"
  by (simp add: offsets_def arange_def image_iff)

subsection \<open>Two small grids, evaluated\<close>

lemma arange4: "arange 4 = [0, 1, 2, 3]"
  by (simp add: arange_def upto.simps)

lemma grid44: "grid (4, 4) 0 = [[-2,-2,-2,-2,-1,-1,-1,-1,0,0,0,0,1,1,1,1], [-2,-1,0,1,-2,-1,0,1,-2,-1,0,1,-2,-1,0,1]]"
  by (simp add: grid_def arange4 meshgrid_ij_def ravel_def)

lemma rot44: "rotate_grid (4, 4) (grid (4, 4) 0) (deg2rad 0) =
   [[0,0,0,0,1,1,1,1,2,2,2,2,3,3,3,3], [0,1,2,3,0,1,2,3,0,1,2,3,0,1,2,3]]"
  by (simp add: grid44 rotate_grid_def deg2rad_def matmul_def upt_conv_Cons del: upt_Suc)

lemma rot33: "rotate_grid (3, 3) (grid (3, 3) 2) (deg2rad 0) = [[1], [1]]"
  by (simp add: grid_def arange_def upto.simps meshgrid_ij_def ravel_def rotate_grid_def deg2rad_def matmul_def)

section \<open>Lemmas on the error metric\<close>

lemma py_slice_border:
  assumes "0 < k" "2 * k \<le> int (length xs)"
  shows "py_slice k (- k) xs = take (length xs - 2 * nat k) (drop (nat k) xs)"
proof -
  have "nat (int (length xs) - k - k) = length xs - 2 * nat k" using assms by linarith
  then show ?thesis using assms by (simp add: py_slice_def Let_def max_def min_def)
qed

lemma slice2_border:
  assumes "0 < k" "2 * k \<le> int (length A)" "\<forall>r \<in> set A. 2 * k \<le> int (length r)"
  shows "slice2 k (- k) A = interior (nat k) A"
proof -
  have "py_slice k (- k) A = take (length A - 2 * nat k) (drop (nat k) A)"
    using assms(1,2) by (rule py_slice_border)
  moreover have "\<forall>r \<in> set (take (length A - 2 * nat k) (drop (nat k) A)).
      py_slice k (- k) r = take (length r - 2 * nat k) (drop (nat k) r)"
    using assms(1,3) by (auto dest!: in_set_takeD in_set_dropD intro!: py_slice_border)
  ultimately show ?thesis by (simp add: slice2_def interior_def)
qed

lemma pad_halves:
  fixes pad :: int
  assumes "0 < pad" "even pad"
  shows "- pad div 2 = - (pad div 2)" "0 < pad div 2" "2 * (pad div 2) = pad"
  using assms by presburger+

lemma length_interior [simp]: "length (interior k A) = length A - 2 * k"
  by (simp add: interior_def)

lemma interior_nth:
  assumes "i < length A - 2 * k"
  shows "interior k A ! i = take (length (A ! (k + i)) - 2 * k) (drop k (A ! (k + i)))"
  using assms by (simp add: interior_def)

lemma arr_sub_interior:
  assumes "length rec = length img" "\<forall>i < length img. length (rec ! i) = length (img ! i)"
  shows "arr_sub (interior k rec) (interior k img) = Inr (map2 (map2 (-)) (interior k rec) (interior k img))"
proof -
  have "map length (interior k rec) = map length (interior k img)"
    using assms by (intro nth_equalityI) (simp_all add: interior_nth)
  then show ?thesis by (simp add: arr_sub_def)
qed

lemma norm_sq_interior:
  assumes n: "length rec = n" "length img = n"
    and m: "\<forall>i < n. length (rec ! i) = m \<and> length (img ! i) = m"
    and k: "2 * k \<le> n" "2 * k \<le> m"
  shows "dot (ravel (map2 (map2 (-)) (interior k rec) (interior k img)))
             (ravel (map2 (map2 (-)) (interior k rec) (interior k img))) =
         (\<Sum>i = k..<n - k. \<Sum>j = k..<m - k. (rec ! i ! j - img ! i ! j)\<^sup>2)"
proof -
  let ?D = "map2 (map2 (-)) (interior k rec) (interior k img)"
  have lD: "length ?D = n - 2 * k" using n by simp
  have row: "sum_list (map (\<lambda>x. x\<^sup>2) (?D ! i)) = (\<Sum>j = k..<m - k. (rec ! (k + i) ! j - img ! (k + i) ! j)\<^sup>2)"
    if i: "i < n - 2 * k" for i
  proof -
    have ki: "k + i < n" using i by simp
    have lr: "length (rec ! (k + i)) = m" "length (img ! (k + i)) = m" using m ki by simp_all
    have "?D ! i = map2 (-) (take (m - 2 * k) (drop k (rec ! (k + i)))) (take (m - 2 * k) (drop k (img ! (k + i))))"
      using i n lr by (simp add: interior_nth)
    also have "\<dots> = take (m - 2 * k) (drop k (map2 (-) (rec ! (k + i)) (img ! (k + i))))"
      by (simp add: take_map drop_map take_zip drop_zip)
    finally have "sum_list (map (\<lambda>x. x\<^sup>2) (?D ! i)) =
        sum_list (map (\<lambda>x. x\<^sup>2) (take (m - 2 * k) (drop k (map2 (-) (rec ! (k + i)) (img ! (k + i))))))"
      by simp
    also have "\<dots> = (\<Sum>j = k..<k + (m - 2 * k). (map2 (-) (rec ! (k + i)) (img ! (k + i)) ! j)\<^sup>2)"
      using lr k by (intro sum_list_take_drop) simp
    also have "\<dots> = (\<Sum>j = k..<m - k. (rec ! (k + i) ! j - img ! (k + i) ! j)\<^sup>2)"
      using lr k by (intro sum.cong) auto
    finally show ?thesis .
  qed
  have "dot (ravel ?D) (ravel ?D) = sum_list (map (\<lambda>r. sum_list (map (\<lambda>x. x\<^sup>2) r)) ?D)"
    by (simp add: dot_self ravel_def sum_list_concat_map)
  also have "\<dots> = (\<Sum>i = 0..<n - 2 * k. sum_list (map (\<lambda>x. x\<^sup>2) (?D ! i)))"
    using sum_list_map_nth[of "\<lambda>r. sum_list (map (\<lambda>x. x\<^sup>2) r)" ?D] lD by simp
  also have "\<dots> = (\<Sum>i = 0..<n - 2 * k. \<Sum>j = k..<m - k. (rec ! (k + i) ! j - img ! (k + i) ! j)\<^sup>2)"
    using row by (intro sum.cong) simp_all
  also have "\<dots> = (\<Sum>i = k..<k + (n - 2 * k). \<Sum>j = k..<m - k. (rec ! i ! j - img ! i ! j)\<^sup>2)"
    using sum.shift_bounds_nat_ivl[of "\<lambda>i. \<Sum>j = k..<m - k. (rec ! i ! j - img ! i ! j)\<^sup>2" 0 k "n - 2 * k"]
    by (simp add: add.commute)
  also have "k + (n - 2 * k) = n - k" using k by simp
  finally show ?thesis .
qed

lemma mse_fbp_formula:
  assumes pad: "0 < pad" "even pad"
    and n: "length rec = n" "length img = n"
    and m: "\<forall>i < n. length (rec ! i) = m \<and> length (img ! i) = m"
    and le: "pad \<le> int n" "pad \<le> int m"
  shows "mse_fbp pad rec img =
           Inr (sqrt (\<Sum>i = nat (pad div 2)..<n - nat (pad div 2).
                      \<Sum>j = nat (pad div 2)..<m - nat (pad div 2). (rec ! i ! j - img ! i ! j)\<^sup>2))"
proof -
  define k where "k = nat (pad div 2)"
  note h = pad_halves[OF pad]
  have kk: "int k = pad div 2" using h(2) by (simp add: k_def)
  have k2: "2 * k \<le> n" "2 * k \<le> m" using le h(3) kk by linarith+
  have rows: "\<forall>r \<in> set rec. 2 * (pad div 2) \<le> int (length r)"
    "\<forall>r \<in> set img. 2 * (pad div 2) \<le> int (length r)"
    using m n le h(3) by (auto simp: in_set_conv_nth)
  have s1: "slice2 (pad div 2) (- pad div 2) rec = interior k rec"
    unfolding h(1) k_def using h(2) le(1) rows(1) n(1) h(3)
    by (intro slice2_border) simp_all
  have s2: "slice2 (pad div 2) (- pad div 2) img = interior k img"
    unfolding h(1) k_def using h(2) le(1) rows(2) n(2) h(3)
    by (intro slice2_border) simp_all
  have sub: "arr_sub (interior k rec) (interior k img) =
      Inr (map2 (map2 (-)) (interior k rec) (interior k img))"
    using n m by (intro arr_sub_interior) simp_all
  show ?thesis
    unfolding mse_fbp_def s1 s2 sub linalg_norm_def
    using norm_sq_interior[OF n m k2] by (simp add: k_def)
qed

section \<open>Lemmas on the wrapped pair\<close>

lemma matvec_adjoint_op: "matvec (adjoint_op A) y = rmatvec A y"
  by (simp add: matvec_def rmatvec_def adjoint_op_def split: sum.splits)

lemma mvec_globals: "mvec radon (g\<lparr>g_projection1 := p\<rparr>) = mvec radon g"
  by (rule ext) (simp add: mvec_def)

lemma rmvec_globals: "rmvec iradon (g\<lparr>g_projection1 := p\<rparr>) = rmvec iradon g"
  by (rule ext) (simp add: rmvec_def)

lemma Fop_globals:
  "Fop radon iradon (g\<lparr>g_projection1 := p\<rparr>) = Fop radon iradon g"
  by (simp add: Fop_def mvec_globals rmvec_globals)

lemma rmatvec_Fop_forward:
  "rmatvec (Fop radon' iradon g) y = rmatvec (Fop radon iradon g) y"
  by (simp add: rmatvec_def Fop_def FunctionOperator_def split: sum.splits)

lemma adjoint_demo_result:
  assumes "adjoint_demo radon iradon g = Inr g'"
  shows "g_projection1 g' = g_projection g \<and> g_image g' = g_image g \<and> g_projection g' = g_projection g \<and>
     (\<exists>a. rmatvec (Fop radon iradon g) (arr_data (g_projection g)) = Inr a \<and>
          g_image_adj g' = \<lparr> arr_shape = arr_shape (g_image g), arr_data = a \<rparr>)"
  using assms
  by (auto simp: adjoint_demo_def Let_def arr_reshape_def arr_ravel_def vector_def matvec_adjoint_op
      Fop_globals split: sum.splits if_splits)

section \<open>The claims\<close>

text \<open>
  Claim C1, as amended. The operator that \<^verbatim>\<open>RadonRotate\<close> returns (the stack of one
  sum-after-bilinear operator per angle) is a forward/adjoint pair wherever it applies:
  whenever the forward result \<open>u = P x\<close> and the adjoint result \<open>v = P\<^sup>T y\<close> exist,
  \<open>\<langle>u, y\<rangle> = \<langle>x, v\<rangle>\<close> holds exactly. For a margin \<open>inner < min nx ny\<close>, a non-empty list of
  \<open>N\<close> angles and rotated grid points that all have their four interpolation samples in
  the image, the operator is returned, both results exist for every \<open>x\<close> of length
  \<open>nx * ny\<close> and every \<open>y\<close> of length \<open>N * (ny - inner)\<close>, and the identity holds for them.
\<close>

theorem RadonRotate_dot_test:
  "(\<forall>P x y u v. RadonRotate (nx, ny) inner thetas = Inr P \<and>
        matvec P x = Inr u \<and> rmatvec P y = Inr v \<longrightarrow> dot u y = dot x v) \<and>
   (inner < nx \<and> inner < ny \<and> thetas \<noteq> [] \<and> grid_inside (nx, ny) inner thetas \<longrightarrow>
      (\<exists>P. RadonRotate (nx, ny) inner thetas = Inr P \<and>
         (\<forall>x y. int (length x) = nx * ny \<and>
                int (length y) = int (length thetas) * (ny - inner) \<longrightarrow>
            (\<exists>u v. matvec P x = Inr u \<and> rmatvec P y = Inr v \<and> dot u y = dot x v))))"
proof (intro conjI allI impI)
  fix P x y u v
  assume "RadonRotate (nx, ny) inner thetas = Inr P \<and> matvec P x = Inr u \<and> rmatvec P y = Inr v"
  then show "dot u y = dot x v"
    using RadonRotate_adjoint[of "(nx, ny)" inner thetas P] by (auto simp: adjoint_pair_def)
next
  assume h: "inner < nx \<and> inner < ny \<and> thetas \<noteq> [] \<and> grid_inside (nx, ny) inner thetas"
  then have ne: "thetas \<noteq> []" and lt: "inner < nx" "inner < ny"
    and gi: "grid_inside (nx, ny) inner thetas" by simp_all
  from RadonRotate_shape[of inner nx ny thetas] lt ne
  obtain P where P: "RadonRotate (nx, ny) inner thetas = Inr P"
    and sh: "shape P = (int (length thetas) * (ny - inner), nx * ny)" by auto
  have ap: "applicable P" using RadonRotate_applicable[OF lt ne gi P] .
  have "\<forall>x y. int (length x) = nx * ny \<and>
                int (length y) = int (length thetas) * (ny - inner) \<longrightarrow>
            (\<exists>u v. matvec P x = Inr u \<and> rmatvec P y = Inr v \<and> dot u y = dot x v)"
  proof (intro allI impI)
    fix x y :: vec
    assume l: "int (length x) = nx * ny \<and> int (length y) = int (length thetas) * (ny - inner)"
    from ap have "(\<exists>u. matvec P x = Inr u) \<and> (\<exists>v. rmatvec P y = Inr v)"
      unfolding applicable_def using l sh by simp
    then obtain u v where uv: "matvec P x = Inr u" "rmatvec P y = Inr v" by blast
    moreover have "dot u y = dot x v"
      using RadonRotate_adjoint[OF P] uv by (auto simp: adjoint_pair_def)
    ultimately show "\<exists>u v. matvec P x = Inr u \<and> rmatvec P y = Inr v \<and> dot u y = dot x v"
      by blast
  qed
  with P show "\<exists>P. RadonRotate (nx, ny) inner thetas = Inr P \<and>
         (\<forall>x y. int (length x) = nx * ny \<and>
                int (length y) = int (length thetas) * (ny - inner) \<longrightarrow>
            (\<exists>u v. matvec P x = Inr u \<and> rmatvec P y = Inr v \<and> dot u y = dot x v))" by blast
qed

text \<open>
  The notebook's parameters (its 60 angles, 90000 pixels, 12000 data values), and a grid of
  one point evaluated in full.
\<close>

theorem RadonRotate_dot_test_witness:
  "(\<exists>P. RadonRotate (300, 300) 100 notebook_thetas = Inr P \<and>
       (\<exists>u v. matvec P (replicate 90000 1) = Inr u \<and> rmatvec P (replicate 12000 2) = Inr v \<and>
              dot u (replicate 12000 2) = dot (replicate 90000 1) v)) \<and>
   (\<exists>P. RadonRotate (3, 3) 2 [0] = Inr P \<and>
       matvec P [1, 2, 3, 4, 5, 6, 7, 8, 9] = Inr [5] \<and>
       rmatvec P [2] = Inr [0, 0, 0, 0, 2, 0, 0, 0, 0] \<and>
       dot [5] [2] = dot [1, 2, 3, 4, 5, 6, 7, 8, 9] [0, 0, 0, 0, 2, 0, 0, 0, 0])"
proof
  have ne: "notebook_thetas \<noteq> []" using length_notebook_thetas by auto
  have "\<exists>P. RadonRotate (300, 300) 100 notebook_thetas = Inr P \<and>
         (\<forall>x y. int (length x) = 300 * 300 \<and>
                int (length y) = int (length notebook_thetas) * (300 - 100) \<longrightarrow>
            (\<exists>u v. matvec P x = Inr u \<and> rmatvec P y = Inr v \<and> dot u y = dot x v))"
    using RadonRotate_dot_test[of 300 300 100 notebook_thetas]
      notebook_grid_inside[of notebook_thetas] ne by simp
  then obtain P where P: "RadonRotate (300, 300) 100 notebook_thetas = Inr P"
    and a: "\<forall>x y. int (length x) = 300 * 300 \<and>
                int (length y) = int (length notebook_thetas) * (300 - 100) \<longrightarrow>
            (\<exists>u v. matvec P x = Inr u \<and> rmatvec P y = Inr v \<and> dot u y = dot x v)" by blast
  have "\<exists>u v. matvec P (replicate 90000 1) = Inr u \<and> rmatvec P (replicate 12000 2) = Inr v \<and>
              dot u (replicate 12000 2) = dot (replicate 90000 1) v"
    using a[rule_format, of "replicate 90000 1" "replicate 12000 2"]
    by (simp add: length_notebook_thetas)
  with P show "\<exists>P. RadonRotate (300, 300) 100 notebook_thetas = Inr P \<and>
       (\<exists>u v. matvec P (replicate 90000 1) = Inr u \<and> rmatvec P (replicate 12000 2) = Inr v \<and>
              dot u (replicate 12000 2) = dot (replicate 90000 1) v)" by blast
next
  have "\<exists>P. RadonRotate (3, 3) 2 [0] = Inr P \<and>
       matvec P [1, 2, 3, 4, 5, 6, 7, 8, 9] = Inr [5] \<and>
       rmatvec P [2] = Inr [0, 0, 0, 0, 2, 0, 0, 0, 0]"
    by (simp add: RadonRotate_def rot33 Bilinear_def points_def mul_op_def Sum_op_def
        VStack_def matvec_def rmatvec_def bilinear_taps_def axis_index_def gather_def
        reshape2_def sum_axis0_def tile_axis0_def numeral_eq_Suc)
  then obtain P where P: "RadonRotate (3, 3) 2 [0] = Inr P"
    and u: "matvec P [1, 2, 3, 4, 5, 6, 7, 8, 9] = Inr [5]"
    and v: "rmatvec P [2] = Inr [0, 0, 0, 0, 2, 0, 0, 0, 0]" by blast
  from RadonRotate_dot_test[of 3 3 2 "[0]"] P u v
  have "dot [5] [2] = dot [1, 2, 3, 4, 5, 6, 7, 8, 9] [0, 0, 0, 0, 2, 0, 0, 0, 0]" by blast
  with P u v show "\<exists>P. RadonRotate (3, 3) 2 [0] = Inr P \<and>
       matvec P [1, 2, 3, 4, 5, 6, 7, 8, 9] = Inr [5] \<and>
       rmatvec P [2] = Inr [0, 0, 0, 0, 2, 0, 0, 0, 0] \<and>
       dot [5] [2] = dot [1, 2, 3, 4, 5, 6, 7, 8, 9] [0, 0, 0, 0, 2, 0, 0, 0, 0]" by blast
qed

text \<open>
  The claim as stated, for every operator that \<^verbatim>\<open>RadonRotate\<close> returns, fails: with a
  \<open>4 \<times> 4\<close> image, no margin and the angle 0 the operator is returned, with shape
  \<open>(4, 16)\<close>, but neither its forward nor its adjoint result exists for vectors of the
  right lengths (both raise \<^verbatim>\<open>IndexError\<close>), so the dot-product test raises instead of
  passing.
\<close>

theorem RadonRotate_dot_test_out_of_bounds:
  "map_sum id shape (RadonRotate (4, 4) 0 [0]) = Inr (4, 16) \<and>
   map_sum id (\<lambda>P. matvec P [1, 2, 3, 4, 5, 6, 7, 8, 9, 10, 11, 12, 13, 14, 15, 16])
     (RadonRotate (4, 4) 0 [0]) = Inr (Inl IndexError) \<and>
   map_sum id (\<lambda>P. rmatvec P [1, 2, 3, 4]) (RadonRotate (4, 4) 0 [0]) = Inr (Inl IndexError)"
  by (simp add: RadonRotate_def rot44 Bilinear_def points_def mul_op_def Sum_op_def
      VStack_def matvec_def rmatvec_def bilinear_taps_def axis_index_def tile_axis0_def
      numeral_eq_Suc)

text \<open>
  Claim C3, as amended. For a margin \<open>inner \<le> min nx ny\<close> and a non-empty list of \<open>N\<close>
  angles in degrees, \<^verbatim>\<open>RadonRotate\<close> returns the vertical stack of exactly \<open>N\<close> operators, in
  the order of the angles; the operator of the angle \<open>thetas ! i\<close> is the product of the sum
  over the first axis of an \<open>(nx - inner) \<times> (ny - inner)\<close> grid with the bilinear
  interpolation at the grid points turned by \<open>thetas ! i * pi / 180\<close> radians with the
  rotation matrix and recentred by \<open>(nx // 2, ny // 2)\<close>.
\<close>

theorem RadonRotate_stack_structure:
  assumes "inner \<le> nx" "inner \<le> ny" "thetas \<noteq> []"
  shows "\<exists>ops P. RadonRotate (nx, ny) inner thetas = Inr P \<and> VStack ops = Inr P \<and>
           length ops = length thetas \<and>
           (\<forall>i < length thetas. \<exists>B.
               Bilinear (rotated_coords (nx, ny) inner (thetas ! i * pi / 180)) (nx, ny) = Inr B \<and>
               mul_op (Sum_op (nx - inner, ny - inner)) B = Inr (ops ! i))"
proof -
  from RadonRotate_ops[OF assms] obtain ops P where P: "RadonRotate (nx, ny) inner thetas = Inr P"
    "VStack ops = Inr P" "length ops = length thetas"
    and a: "\<forall>i < length thetas. \<exists>B.
               Bilinear (rotate_grid (nx, ny) (grid (nx, ny) inner) (deg2rad (thetas ! i))) (nx, ny) = Inr B \<and>
               mul_op (Sum_op (nx - inner, ny - inner)) B = Inr (ops ! i) \<and>
               shape (ops ! i) = (ny - inner, nx * ny)" by blast
  have "\<forall>i < length thetas. \<exists>B.
               Bilinear (rotated_coords (nx, ny) inner (thetas ! i * pi / 180)) (nx, ny) = Inr B \<and>
               mul_op (Sum_op (nx - inner, ny - inner)) B = Inr (ops ! i)"
    using a by (auto simp: rotate_grid_rotated_coords deg2rad_def)
  with P show ?thesis by blast
qed

theorem RadonRotate_stack_structure_witness:
  "\<exists>ops P. RadonRotate (300, 300) 100 [0, 3] = Inr P \<and> VStack ops = Inr P \<and> length ops = 2 \<and>
     (\<exists>B. Bilinear (rotated_coords (300, 300) 100 0) (300, 300) = Inr B \<and>
          mul_op (Sum_op (200, 200)) B = Inr (ops ! 0)) \<and>
     (\<exists>B. Bilinear (rotated_coords (300, 300) 100 (3 * pi / 180)) (300, 300) = Inr B \<and>
          mul_op (Sum_op (200, 200)) B = Inr (ops ! 1))"
proof -
  from RadonRotate_stack_structure[of 100 300 300 "[0, 3]"]
  obtain ops P where P: "RadonRotate (300, 300) 100 [0, 3] = Inr P" "VStack ops = Inr P"
    "length ops = 2"
    and a: "\<forall>i < 2. \<exists>B.
               Bilinear (rotated_coords (300, 300) 100 ([0, 3] ! i * pi / 180)) (300, 300) = Inr B \<and>
               mul_op (Sum_op (200, 200)) B = Inr (ops ! i)"
    by auto
  from a[rule_format, of 0] a[rule_format, of 1] P show ?thesis by auto
qed

text \<open>
  The claim as stated, for every list of angles and every margin, fails: with no angle
  the stack of no operator raises, and with a margin larger than the image the product of
  the two operators raises.
\<close>

theorem RadonRotate_stack_undefined:
  "RadonRotate (300, 300) 100 [] = Inl IndexError \<and> RadonRotate (1, 1) 3 [0] = Inl ValueError"
  by (simp add: RadonRotate_def VStack_def deg2rad_def Bilinear_def grid_def rotate_grid_def arange_def
       meshgrid_ij_def ravel_def matmul_def points_def mul_op_def Sum_op_def)

text \<open>
  Claim C4, as amended. For a margin \<open>inner < min nx ny\<close> and a non-empty list of \<open>N\<close>
  angles, the operator that \<^verbatim>\<open>RadonRotate\<close> returns has the shape
  \<open>(N * (ny - inner), nx * ny)\<close>, and every result it returns is for an input of length
  \<open>nx * ny\<close> and has length \<open>N * (ny - inner)\<close>. Where all rotated grid points have their
  four interpolation samples in the image, it returns a result for the flattened
  \<open>nx \<times> ny\<close> image, and the notebook's reshape of it to \<open>N\<close> rows of \<open>ny - inner\<close> entries
  succeeds.
\<close>

theorem projection1_shape:
  assumes "inner < nx" "inner < ny" "thetas \<noteq> []"
    and "length img = nat nx" "\<forall>r \<in> set img. length r = nat ny"
  shows "\<exists>P. RadonRotate (nx, ny) inner thetas = Inr P \<and>
           shape P = (int (length thetas) * (ny - inner), nx * ny) \<and>
           (\<forall>x u. matvec P x = Inr u \<longrightarrow>
              int (length x) = nx * ny \<and> int (length u) = int (length thetas) * (ny - inner)) \<and>
           (grid_inside (nx, ny) inner thetas \<longrightarrow>
              (\<exists>u A. matvec P (ravel img) = Inr u \<and>
                 projection1 (nx, ny) inner thetas img = Inr A \<and>
                 length A = length thetas \<and> (\<forall>r \<in> set A. length r = nat (ny - inner)) \<and>
                 concat A = u))"
proof -
  from RadonRotate_shape[of inner nx ny thetas] assms(1-3)
  obtain P where P: "RadonRotate (nx, ny) inner thetas = Inr P"
    and sh: "shape P = (int (length thetas) * (ny - inner), nx * ny)" by auto
  have len: "\<forall>x u. matvec P x = Inr u \<longrightarrow>
      int (length x) = nx * ny \<and> int (length u) = int (length thetas) * (ny - inner)"
    using matvec_length(1,2)[of P] sh by auto
  have app: "grid_inside (nx, ny) inner thetas \<longrightarrow>
      (\<exists>u A. matvec P (ravel img) = Inr u \<and>
         projection1 (nx, ny) inner thetas img = Inr A \<and>
         length A = length thetas \<and> (\<forall>r \<in> set A. length r = nat (ny - inner)) \<and>
         concat A = u)"
  proof
    assume g: "grid_inside (nx, ny) inner thetas"
    have ap: "applicable P" using RadonRotate_applicable[OF assms(1-3) g P] .
    from offsets_nonempty[OF assms(1,2)] obtain q where q: "q \<in> set (offsets (nx, ny) inner)"
      by (cases "offsets (nx, ny) inner") auto
    obtain t where t: "t \<in> set thetas" using assms(3) by (cases thetas) auto
    have "rotated_point (nx, ny) (deg2rad t) q \<in> set (points (rotated_coords (nx, ny) inner (deg2rad t)))"
      using q by (simp add: points_rotated_coords)
    with g t have "inside (nx, ny) (rotated_point (nx, ny) (deg2rad t) q)"
      by (auto simp: grid_inside_def)
    then have nn: "0 \<le> nx" "0 \<le> ny" using inside_nonneg_dims by blast+
    have "length (ravel img) = nat nx * nat ny"
      using length_concat_rows[OF assms(5)] assms(4) by (simp add: ravel_def)
    then have "int (length (ravel img)) = nx * ny" using nn by simp
    then obtain u where u: "matvec P (ravel img) = Inr u"
      using ap sh by (auto simp: applicable_def)
    have lu: "int (length u) = int (length thetas) * (ny - inner)" using len u by blast
    then have lu': "length u = length thetas * nat (ny - inner)"
      using assms(2) by (metis nat_int nat_mult_distrib of_nat_0_le_iff)
    define A where "A = reshape2 (length thetas) (nat (ny - inner)) u"
    have pA: "projection1 (nx, ny) inner thetas img = Inr A"
      using P u lu assms(2) by (simp add: projection1_def np_reshape2_def A_def)
    have rows: "\<forall>r \<in> set A. length r = nat (ny - inner)"
      unfolding A_def using lu' by (rule reshape2_rows)
    have "concat A = u"
      unfolding A_def using lu' by (rule concat_reshape2)
    with u pA rows show "\<exists>u A. matvec P (ravel img) = Inr u \<and>
         projection1 (nx, ny) inner thetas img = Inr A \<and>
         length A = length thetas \<and> (\<forall>r \<in> set A. length r = nat (ny - inner)) \<and>
         concat A = u"
      by (auto simp: A_def)
  qed
  from P sh len app show ?thesis by blast
qed

theorem projection1_shape_witness:
  "(\<exists>P. RadonRotate (300, 300) 100 notebook_thetas = Inr P \<and> shape P = (12000, 90000) \<and>
       (\<exists>u A. matvec P (ravel (replicate 300 (replicate 300 1))) = Inr u \<and>
              projection1 (300, 300) 100 notebook_thetas (replicate 300 (replicate 300 1)) = Inr A \<and>
              length A = 60 \<and> list_all (\<lambda>r. length r = 200) A \<and> concat A = u)) \<and>
   projection1 (3, 3) 2 [0] [[1, 2, 3], [4, 5, 6], [7, 8, 9]] = Inr [[5]]"
proof
  have ne: "notebook_thetas \<noteq> []" using length_notebook_thetas by auto
  from projection1_shape[of 100 300 300 notebook_thetas "replicate 300 (replicate 300 1)"]
    notebook_grid_inside[of notebook_thetas] ne
  show "\<exists>P. RadonRotate (300, 300) 100 notebook_thetas = Inr P \<and> shape P = (12000, 90000) \<and>
       (\<exists>u A. matvec P (ravel (replicate 300 (replicate 300 1))) = Inr u \<and>
              projection1 (300, 300) 100 notebook_thetas (replicate 300 (replicate 300 1)) = Inr A \<and>
              length A = 60 \<and> list_all (\<lambda>r. length r = 200) A \<and> concat A = u)"
    unfolding list_all_iff by (simp add: length_notebook_thetas) blast
next
  show "projection1 (3, 3) 2 [0] [[1, 2, 3], [4, 5, 6], [7, 8, 9]] = Inr [[5]]"
    by (simp add: projection1_def RadonRotate_def rot33 Bilinear_def points_def mul_op_def
        Sum_op_def VStack_def matvec_def ravel_def bilinear_taps_def axis_index_def gather_def
        reshape2_def sum_axis0_def np_reshape2_def numeral_eq_Suc)
qed

text \<open>
  The claim as stated, for every margin below \<open>min nx ny\<close>, fails: with a \<open>4 \<times> 4\<close> image, no
  margin and the angle 0 the operator is built, with shape \<open>(4, 16)\<close>, but the grid points
  of the last row and column need samples in row and column 4, and applying the operator
  raises \<^verbatim>\<open>IndexError\<close>.
\<close>

theorem projection1_out_of_bounds:
  "map_sum id shape (RadonRotate (4, 4) 0 [0]) = Inr (4, 16) \<and>
  projection1 (4, 4) 0 [0] (replicate 4 (replicate 4 0)) = Inl IndexError"
  by (simp add: projection1_def RadonRotate_def rot44 Bilinear_def points_def mul_op_def Sum_op_def
      VStack_def matvec_def ravel_def bilinear_taps_def axis_index_def numeral_eq_Suc)

text \<open>
  Claim C5. With the notebook's \<open>pad\<close> (50; any positive even value), the three error
  metrics are one function of the reconstructed and the original image: the square root of
  the sum of the squared differences over the rows and columns \<open>pad // 2, ..., n - pad // 2 - 1\<close>,
  that is the 2-norm of the difference on the interior without a border of \<open>pad // 2\<close>
  pixels on every side. It is not the mean of the squared differences.
\<close>

theorem mse_is_interior_norm:
  assumes "0 < pad" "even pad"
    and "length rec = n" "length img = n"
    and "\<forall>i < n. length (rec ! i) = m \<and> length (img ! i) = m"
    and "pad \<le> int n" "pad \<le> int m"
  shows "mse_fbp pad rec img =
           Inr (sqrt (\<Sum>i = nat (pad div 2)..<n - nat (pad div 2).
                      \<Sum>j = nat (pad div 2)..<m - nat (pad div 2). (rec ! i ! j - img ! i ! j)\<^sup>2)) \<and>
         mse_l2 pad rec img = mse_fbp pad rec img \<and>
         mse_tv pad rec img = mse_fbp pad rec img \<and>
         \<not> (\<forall>a b. mse_fbp 50 a b = Inr (mean_squared_error 50 a b))"
proof (intro conjI)
  show "mse_fbp pad rec img =
           Inr (sqrt (\<Sum>i = nat (pad div 2)..<n - nat (pad div 2).
                      \<Sum>j = nat (pad div 2)..<m - nat (pad div 2). (rec ! i ! j - img ! i ! j)\<^sup>2))"
    using assms by (rule mse_fbp_formula)
  show "mse_l2 pad rec img = mse_fbp pad rec img" by (simp add: mse_l2_def mse_fbp_def)
  show "mse_tv pad rec img = mse_fbp pad rec img" by (simp add: mse_tv_def mse_fbp_def)
  show "\<not> (\<forall>a b. mse_fbp 50 a b = Inr (mean_squared_error 50 a b))"
  proof
    assume a: "\<forall>a b. mse_fbp 50 a b = Inr (mean_squared_error 50 a b)"
    define R :: "vec list" where "R = replicate 52 (replicate 52 1)"
    define Z :: "vec list" where "Z = replicate 52 (replicate 52 0)"
    have "mse_fbp 50 R Z = Inr (sqrt (\<Sum>i = nat (50 div 2)..<52 - nat (50 div 2).
                      \<Sum>j = nat (50 div 2)..<52 - nat (50 div 2). (R ! i ! j - Z ! i ! j)\<^sup>2))"
      by (rule mse_fbp_formula) (simp_all add: R_def Z_def)
    also have "(\<Sum>i = nat (50 div 2)..<52 - nat (50 div 2).
                      \<Sum>j = nat (50 div 2)..<52 - nat (50 div 2). (R ! i ! j - Z ! i ! j)\<^sup>2) =
               (\<Sum>i = 25..<27::nat. \<Sum>j = 25..<27::nat. (1::real))"
      by (intro sum.cong) (simp_all add: R_def Z_def)
    also have "\<dots> = 4" by simp
    finally have 1: "mse_fbp 50 R Z = Inr 2" by simp
    have "interior 25 R = replicate 2 (replicate 2 1)" "interior 25 Z = replicate 2 (replicate 2 0)"
      by (simp_all add: interior_def R_def Z_def)
    then have "mean_squared_error 50 R Z = 1"
      by (simp add: mean_squared_error_def mean_squared_def ravel_def numeral_2_eq_2)
    with a 1 show False by simp
  qed
qed

theorem mse_is_interior_norm_witness:
  "mse_fbp 2 [[0, 0, 0], [0, 3, 0], [0, 0, 0]] [[0, 0, 0], [0, 1, 0], [0, 0, 0]] = Inr 2 \<and>
   mse_l2 2 [[0, 0, 0], [0, 3, 0], [0, 0, 0]] [[0, 0, 0], [0, 1, 0], [0, 0, 0]] = Inr 2 \<and>
   mse_tv 2 [[0, 0, 0], [0, 3, 0], [0, 0, 0]] [[0, 0, 0], [0, 1, 0], [0, 0, 0]] = Inr 2 \<and>
   mean_squared_error 2 [[0, 0, 0], [0, 3, 0], [0, 0, 0]] [[0, 0, 0], [0, 1, 0], [0, 0, 0]] = 4"
proof -
  have "\<forall>i < 3. length ([[0, 0, 0], [0, 3, 0], [0, 0, 0::real]] ! i) = 3 \<and>
                length ([[0, 0, 0], [0, 1, 0], [0, 0, 0::real]] ! i) = 3"
    by (simp add: less_Suc_eq numeral_3_eq_3)
  from mse_is_interior_norm[of 2 "[[0, 0, 0], [0, 3, 0], [0, 0, 0]]" 3 "[[0, 0, 0], [0, 1, 0], [0, 0, 0]]" 3, OF _ _ _ _ this]
  have "mse_fbp 2 [[0, 0, 0], [0, 3, 0], [0, 0, 0]] [[0, 0, 0], [0, 1, 0], [0, 0, 0]] = Inr 2 \<and>
   mse_l2 2 [[0, 0, 0], [0, 3, 0], [0, 0, 0]] [[0, 0, 0], [0, 1, 0], [0, 0, 0]] = Inr 2 \<and>
   mse_tv 2 [[0, 0, 0], [0, 3, 0], [0, 0, 0]] [[0, 0, 0], [0, 1, 0], [0, 0, 0]] = Inr 2"
    by simp
  moreover have "mean_squared_error 2 [[0, 0, 0], [0, 3, 0], [0, 0, 0]] [[0, 0, 0], [0, 1, 0], [0, 0, 0]] = 4"
    by (simp add: mean_squared_error_def mean_squared_def interior_def ravel_def)
  ultimately show ?thesis by simp
qed

text \<open>
  Claim C8. For the notebook's parameters (a \<open>300 \<times> 300\<close> image, margin 100) and every
  angle, every rotated grid point lies in \<open>[0, 299] \<times> [0, 299]\<close>, at a distance of at most
  \<open>sqrt 20000\<close> (about 141.4) from the centre \<open>(150, 150)\<close>; bilinear interpolation finds
  its four samples for each of them, so applying the interpolation operator never raises.
\<close>

theorem notebook_grid_in_bounds:
  "(\<forall>p \<in> set (points (rotate_grid (300, 300) (grid (300, 300) 100) theta)).
       0 \<le> fst p \<and> fst p \<le> 299 \<and> 0 \<le> snd p \<and> snd p \<le> 299 \<and>
       (fst p - 150)\<^sup>2 + (snd p - 150)\<^sup>2 \<le> 20000 \<and>
       (\<exists>taps. bilinear_taps (300, 300) p = Inr taps)) \<and>
   (\<forall>x. length x = 90000 \<longrightarrow>
       (\<exists>B u. Bilinear (rotate_grid (300, 300) (grid (300, 300) 100) theta) (300, 300) = Inr B \<and>
              matvec B x = Inr u))"
proof (intro conjI ballI allI impI)
  fix p assume "p \<in> set (points (rotate_grid (300, 300) (grid (300, 300) 100) theta))"
  then have p: "p \<in> set (points (rotated_coords (300, 300) 100 theta))"
    by (simp add: rotate_grid_rotated_coords)
  note b = notebook_point[OF p]
  from b show "0 \<le> fst p" "fst p \<le> 299" "0 \<le> snd p" "snd p \<le> 299"
    "(fst p - 150)\<^sup>2 + (snd p - 150)\<^sup>2 \<le> 20000" by simp_all
  from b have "inside (300, 300) p" by (simp add: inside_def)
  then show "\<exists>taps. bilinear_taps (300, 300) p = Inr taps" by (rule inside_taps)
next
  fix x :: vec assume lx: "length x = 90000"
  obtain B where B: "Bilinear (rotate_grid (300, 300) (grid (300, 300) 100) theta) (300, 300) = Inr B"
    and sB: "shape B = (int (length (offsets (300, 300) 100)), 300 * 300)"
    using Bilinear_rotate_grid[of "(300, 300)" 100 theta] by auto
  have ins: "\<forall>p \<in> set (points (rotated_coords (300, 300) 100 theta)). inside (300, 300) p"
  proof
    fix p assume "p \<in> set (points (rotated_coords (300, 300) 100 theta))"
    from notebook_point[OF this] show "inside (300, 300) p" by (simp add: inside_def)
  qed
  have len: "length (rotated_coords (300, 300) 100 theta ! 0) = length (rotated_coords (300, 300) 100 theta ! 1)"
    by (simp add: rotated_coords_def)
  have "applicable B"
    using applicable_Bilinear[OF B[unfolded rotate_grid_rotated_coords] len _ _ ins] by simp
  moreover have "int (length x) = snd (shape B)" using lx by (simp add: sB)
  ultimately have "\<exists>u. matvec B x = Inr u" unfolding applicable_def by blast
  with B show "\<exists>B u. Bilinear (rotate_grid (300, 300) (grid (300, 300) 100) theta) (300, 300) = Inr B \<and>
              matvec B x = Inr u" by blast
qed

text \<open>
  At the angle 0 the first grid point is \<open>(50, 50)\<close>; it is at the distance \<open>sqrt 20000\<close> from
  the centre, so the bound is attained.
\<close>

theorem notebook_grid_in_bounds_witness:
  "(50, 50) \<in> set (points (rotate_grid (300, 300) (grid (300, 300) 100) 0)) \<and>
   (0::real) \<le> 50 \<and> (50::real) \<le> 299 \<and> ((50::real) - 150)\<^sup>2 + (50 - 150)\<^sup>2 = 20000 \<and>
   (\<exists>taps. bilinear_taps (300, 300) (50, 50) = Inr taps) \<and>
   (\<exists>B u. Bilinear (rotate_grid (300, 300) (grid (300, 300) 100) 0) (300, 300) = Inr B \<and>
          matvec B (replicate 90000 0) = Inr u)"
proof -
  have "rotated_point (300, 300) 0 (- 100, - 100) = (50, 50)"
    by (simp add: rotated_point_def)
  then have m: "(50, 50) \<in> set (points (rotate_grid (300, 300) (grid (300, 300) 100) 0))"
    using corner_offset by (force simp: points_rotate_grid)
  from notebook_grid_in_bounds[of 0] m show ?thesis by force
qed

text \<open>
  Claim C9. In the demonstration of \<^verbatim>\<open>FunctionOperator\<close>, after the four assignments
  \<^verbatim>\<open>projection1\<close> is the array \<^verbatim>\<open>projection\<close> and \<^verbatim>\<open>image_adj\<close> is the adjoint applied to
  \<^verbatim>\<open>projection\<close>, reshaped to the image: the result of the forward call is discarded, and
  \<^verbatim>\<open>image_adj\<close> is the same whatever the wrapped forward function returns. It is the adjoint
  of the forward output if that output is \<^verbatim>\<open>projection\<close> itself, and only then when the
  wrapped adjoint is injective.
\<close>

theorem adjoint_demo_uses_projection:
  assumes "adjoint_demo radon iradon g = Inr g'"
  shows "g_projection1 g' = g_projection g \<and>
     (\<exists>p1. matvec (Fop radon iradon g) (arr_data (g_image g)) = Inr p1) \<and>
     (\<exists>a. rmatvec (Fop radon iradon g) (arr_data (g_projection g)) = Inr a \<and>
          g_image_adj g' = \<lparr> arr_shape = arr_shape (g_image g), arr_data = a \<rparr>) \<and>
     (\<forall>radon' g''. adjoint_demo radon' iradon g = Inr g'' \<longrightarrow> g_image_adj g'' = g_image_adj g') \<and>
     (\<forall>p1 a. matvec (Fop radon iradon g) (arr_data (g_image g)) = Inr p1 \<and>
             rmatvec (Fop radon iradon g) p1 = Inr a \<and> p1 = arr_data (g_projection g) \<longrightarrow>
             arr_data (g_image_adj g') = a) \<and>
     (\<forall>p1 a. matvec (Fop radon iradon g) (arr_data (g_image g)) = Inr p1 \<and>
             rmatvec (Fop radon iradon g) p1 = Inr a \<and> arr_data (g_image_adj g') = a \<and>
             (\<forall>y y' b. rmatvec (Fop radon iradon g) y = Inr b \<and>
                       rmatvec (Fop radon iradon g) y' = Inr b \<longrightarrow> y = y') \<longrightarrow>
             p1 = arr_data (g_projection g))"
proof (intro conjI allI impI)
  note r = adjoint_demo_result[OF assms]
  from r show "g_projection1 g' = g_projection g" by simp
  from assms show "\<exists>p1. matvec (Fop radon iradon g) (arr_data (g_image g)) = Inr p1"
    by (auto simp: adjoint_demo_def arr_ravel_def vector_def split: sum.splits)
  from r show "\<exists>a. rmatvec (Fop radon iradon g) (arr_data (g_projection g)) = Inr a \<and>
          g_image_adj g' = \<lparr> arr_shape = arr_shape (g_image g), arr_data = a \<rparr>" by simp
  {
    fix radon' g'' assume "adjoint_demo radon' iradon g = Inr g''"
    from adjoint_demo_result[OF this] r
    show "g_image_adj g'' = g_image_adj g'"
      by (auto simp: rmatvec_Fop_forward[of radon' iradon g _ radon])
  }
  {
    fix p1 a
    assume "matvec (Fop radon iradon g) (arr_data (g_image g)) = Inr p1 \<and>
             rmatvec (Fop radon iradon g) p1 = Inr a \<and> p1 = arr_data (g_projection g)"
    with r show "arr_data (g_image_adj g') = a" by auto
  }
  {
    fix p1 a
    assume h: "matvec (Fop radon iradon g) (arr_data (g_image g)) = Inr p1 \<and>
             rmatvec (Fop radon iradon g) p1 = Inr a \<and> arr_data (g_image_adj g') = a \<and>
             (\<forall>y y' b. rmatvec (Fop radon iradon g) y = Inr b \<and>
                       rmatvec (Fop radon iradon g) y' = Inr b \<longrightarrow> y = y')"
    from r obtain a0 where a0: "rmatvec (Fop radon iradon g) (arr_data (g_projection g)) = Inr a0"
      "arr_data (g_image_adj g') = a0" by auto
    with h have "rmatvec (Fop radon iradon g) (arr_data (g_projection g)) = Inr a"
      "rmatvec (Fop radon iradon g) p1 = Inr a" by simp_all
    with h show "p1 = arr_data (g_projection g)" by blast
  }
qed

text \<open>
  A forward function that doubles its input and an adjoint that returns its input: the
  forward output is \<open>[10]\<close>, whose adjoint would be \<open>[10]\<close>, but \<^verbatim>\<open>image_adj\<close> is \<open>[7]\<close>, the
  adjoint of \<^verbatim>\<open>projection\<close>.
\<close>

theorem adjoint_demo_uses_projection_witness:
  "\<exists>g'. adjoint_demo
          (\<lambda>a. Inr \<lparr> arr_shape = arr_shape a, arr_data = map ((*) 2) (arr_data a) \<rparr>) Inr
          \<lparr> g_image = \<lparr> arr_shape = [1, 1], arr_data = [5] \<rparr>,
            g_projection = \<lparr> arr_shape = [1, 1], arr_data = [7] \<rparr>,
            g_projection1 = vector [], g_image_adj = vector [] \<rparr> = Inr g' \<and>
        g_projection1 g' = \<lparr> arr_shape = [1, 1], arr_data = [7] \<rparr> \<and>
        g_image_adj g' = \<lparr> arr_shape = [1, 1], arr_data = [7] \<rparr> \<and>
        matvec (Fop (\<lambda>a. Inr \<lparr> arr_shape = arr_shape a, arr_data = map ((*) 2) (arr_data a) \<rparr>) Inr
                 \<lparr> g_image = \<lparr> arr_shape = [1, 1], arr_data = [5] \<rparr>,
                   g_projection = \<lparr> arr_shape = [1, 1], arr_data = [7] \<rparr>,
                   g_projection1 = vector [], g_image_adj = vector [] \<rparr>) [5] = Inr [10] \<and>
        rmatvec (Fop (\<lambda>a. Inr \<lparr> arr_shape = arr_shape a, arr_data = map ((*) 2) (arr_data a) \<rparr>) Inr
                 \<lparr> g_image = \<lparr> arr_shape = [1, 1], arr_data = [5] \<rparr>,
                   g_projection = \<lparr> arr_shape = [1, 1], arr_data = [7] \<rparr>,
                   g_projection1 = vector [], g_image_adj = vector [] \<rparr>) [10] = Inr [10]"
proof -
  define radon :: "ndarray \<Rightarrow> error + ndarray"
    where "radon = (\<lambda>a. Inr \<lparr> arr_shape = arr_shape a, arr_data = map ((*) 2) (arr_data a) \<rparr>)"
  define g where "g = \<lparr> g_image = \<lparr> arr_shape = [1, 1], arr_data = [5] \<rparr>,
            g_projection = \<lparr> arr_shape = [1, 1], arr_data = [7] \<rparr>,
            g_projection1 = vector [], g_image_adj = vector [] \<rparr>"
  have fwd: "matvec (Fop radon Inr g) [5] = Inr [10]"
    by (simp add: matvec_def Fop_def FunctionOperator_def mvec_def arr_reshape_def vector_def
        arr_size_def radon_def g_def)
  have adj: "rmatvec (Fop radon Inr g) [10] = Inr [10]"
    by (simp add: rmatvec_def Fop_def FunctionOperator_def rmvec_def arr_reshape_def vector_def
        arr_size_def radon_def g_def)
  have adjp: "rmatvec (Fop radon Inr g) [7] = Inr [7]"
    by (simp add: rmatvec_def Fop_def FunctionOperator_def rmvec_def arr_reshape_def vector_def
        arr_size_def radon_def g_def)
  have gi: "g_image g = \<lparr> arr_shape = [1, 1], arr_data = [5] \<rparr>"
    and gp: "g_projection g = \<lparr> arr_shape = [1, 1], arr_data = [7] \<rparr>"
    by (simp_all add: g_def)
  have "\<exists>g'. adjoint_demo radon Inr g = Inr g'"
    by (simp add: adjoint_demo_def Let_def arr_ravel_def vector_def arr_reshape_def
        matvec_adjoint_op Fop_globals gi gp fwd adjp)
  then obtain g' where g': "adjoint_demo radon Inr g = Inr g'" ..
  from adjoint_demo_uses_projection[OF g'] adjp
  have "g_projection1 g' = \<lparr> arr_shape = [1, 1], arr_data = [7] \<rparr> \<and>
        g_image_adj g' = \<lparr> arr_shape = [1, 1], arr_data = [7] \<rparr>"
    by (auto simp: g_def)
  with g' fwd adj show ?thesis unfolding radon_def g_def by blast
qed

text \<open>
  Claim C10. For an empty list of angles the loop leaves \<open>Rops\<close> empty and
  \<^verbatim>\<open>RadonRotate\<close> returns what the stack of the empty list returns; that call raises, so
  \<^verbatim>\<open>RadonRotate\<close> returns no operator, whatever the dimensions and the margin.
\<close>

theorem RadonRotate_empty_angles:
  "RadonRotate_loop dims inner (grid dims inner) [] (map deg2rad []) = Inr [] \<and>
   RadonRotate dims inner [] = VStack [] \<and>
   VStack [] = Inl IndexError \<and>
   RadonRotate dims inner [] = Inl IndexError \<and>
   \<not> (\<exists>P. RadonRotate dims inner [] = Inr P)"
  by (simp add: RadonRotate_def VStack_def)

end
